theory Spec2Isabelle
  imports Main "HOL-Library.AList"
begin

section \<open>tap-sentry: the extraction engine of \<^verbatim>\<open>tap_sentry/sync.py\<close>\<close>

text \<open>
  The development embeds \<^verbatim>\<open>SentryAuthentication\<close>, \<^verbatim>\<open>SentryClient\<close> and
  \<^verbatim>\<open>SentrySync\<close>. Exceptions are values of \<open>error\<close>, the network, the clock and the
  output channel are an explicit \<open>world\<close>, and the \<^verbatim>\<open>while\<close> loops that follow
  next-page links are partial functions in the option monad, because a server may link
  its pages in a cycle. The loops of \<^verbatim>\<open>issues\<close>, \<^verbatim>\<open>events\<close> and \<^verbatim>\<open>teams\<close> are the same
  text in the source and one function, \<open>paginate\<close>, here.
\<close>

subsection \<open>Decoded JSON and the Python operations the code applies to it\<close>

text \<open>
  \<^verbatim>\<open>response.json()\<close> may return any JSON value. Numbers are restricted to integers,
  and an object is an association list whose first binding of a key is the one looked up.
\<close>

datatype json =
    JNull
  | JBool bool
  | JNum int
  | JStr string
  | JArr "json list"
  | JObj "(string \<times> json) list"

datatype error =
    KeyError string
  | TypeError
  | ValueError
  | HTTPError nat
  | RequestException

text \<open>Truth value of a Python object, as tested by \<^verbatim>\<open>if x:\<close>.\<close>

fun truthy :: "json \<Rightarrow> bool" where
  "truthy JNull = False"
| "truthy (JBool b) = b"
| "truthy (JNum n) = (n \<noteq> 0)"
| "truthy (JStr s) = (s \<noteq> [])"
| "truthy (JArr xs) = (xs \<noteq> [])"
| "truthy (JObj kvs) = (kvs \<noteq> [])"

text \<open>\<^verbatim>\<open>x[key]\<close> with a string key: only a dict accepts it.\<close>

fun subscript :: "json \<Rightarrow> string \<Rightarrow> error + json" where
  "subscript (JObj kvs) k = (case map_of kvs k of None \<Rightarrow> Inl (KeyError k) | Some v \<Rightarrow> Inr v)"
| "subscript _ k = Inl TypeError"

text \<open>The elements \<^verbatim>\<open>for x in v\<close> visits: a dict yields its keys, a string its characters.\<close>

fun py_iter :: "json \<Rightarrow> error + json list" where
  "py_iter (JArr xs) = Inr xs"
| "py_iter (JObj kvs) = Inr (map (\<lambda>kv. JStr (fst kv)) kvs)"
| "py_iter (JStr s) = Inr (map (\<lambda>c. JStr [c]) s)"
| "py_iter _ = Inl TypeError"

fun num_of :: "json \<Rightarrow> int option" where
  "num_of (JBool b) = Some (if b then 1 else 0)"
| "num_of (JNum n) = Some n"
| "num_of _ = None"

text \<open>
  \<^verbatim>\<open>acc += v\<close>: a list is extended by the elements of any iterable, strings are
  concatenated, numbers added; every other combination raises \<^verbatim>\<open>TypeError\<close>.
\<close>

fun py_iadd :: "json \<Rightarrow> json \<Rightarrow> error + json" where
  "py_iadd (JArr xs) v = (case py_iter v of Inl e \<Rightarrow> Inl TypeError | Inr ys \<Rightarrow> Inr (JArr (xs @ ys)))"
| "py_iadd (JStr s) v = (case v of JStr t \<Rightarrow> Inr (JStr (s @ t)) | _ \<Rightarrow> Inl TypeError)"
| "py_iadd JNull v = Inl TypeError"
| "py_iadd (JObj kvs) v = Inl TypeError"
| "py_iadd a v =
     (case (num_of a, num_of v) of (Some m, Some n) \<Rightarrow> Inr (JNum (m + n)) | _ \<Rightarrow> Inl TypeError)"

subsection \<open>Bookmarks (\<^verbatim>\<open>singer.bookmarks\<close>)\<close>

text \<open>
  The state is the mapping \<^verbatim>\<open>bookmarks[stream][field] = value\<close>, flattened to pairs
  \<open>(stream, field)\<close>. \<^verbatim>\<open>get_bookmark\<close> returns \<^verbatim>\<open>None\<close> for an absent path and
  \<^verbatim>\<open>write_bookmark\<close> sets one entry and returns the state.
\<close>

type_synonym state = "((string \<times> string) \<times> string) list"

definition get_bookmark :: "state \<Rightarrow> string \<Rightarrow> string \<Rightarrow> string option" where
  "get_bookmark st tap_stream_id key = map_of st (tap_stream_id, key)"

definition write_bookmark :: "state \<Rightarrow> string \<Rightarrow> string \<Rightarrow> string \<Rightarrow> state" where
  "write_bookmark st tap_stream_id key val = AList.update (tap_stream_id, key) val st"

subsection \<open>Requests, responses and the world\<close>

record request =
  headers :: "(string \<times> string) list"

record response =
  status_code :: nat
  url :: string
  links :: "(string \<times> (string \<times> string) list) list"
  body :: "json option"

text \<open>
  \<open>links\<close> is \<^verbatim>\<open>response.links\<close>: the parsed \<^verbatim>\<open>Link\<close> header, keyed by relation, each
  entry a dict of attributes (\<^verbatim>\<open>url\<close>, \<^verbatim>\<open>results\<close>, \<^verbatim>\<open>cursor\<close>); it is empty when the
  response has no such header. \<open>body\<close> is \<open>None\<close> when the payload does not decode.
\<close>

record env =
  base_url :: string
  serve :: "string \<Rightarrow> error + response"
  latency :: "string \<Rightarrow> nat"
  strftime :: "nat \<Rightarrow> string"
  parse :: "string \<Rightarrow> nat option"
  quote :: "string \<Rightarrow> string"
  py_format :: "json \<Rightarrow> string"

text \<open>
  \<open>serve u\<close> is what \<^verbatim>\<open>session.get(u)\<close> ends with once the transport adapter has done
  its retries: a response of any status, or an exception. \<open>latency u\<close> is the time the
  call takes. \<open>strftime\<close> is \<^verbatim>\<open>singer.utils.strftime\<close>, \<open>parse\<close> is
  \<^verbatim>\<open>dateutil.parser.parse\<close> on a string (\<open>None\<close> when it raises) read as a UTC
  instant, \<open>quote\<close> is \<^verbatim>\<open>urllib.parse.quote\<close> and \<open>py_format\<close> the text an f-string
  puts in for a value.
\<close>

datatype message =
    SCHEMA string json "string list"
  | RECORD string json
  | STATE state

record world =
  clock :: nat
  requests :: "string list"
  state :: state
  out :: "message list"

definition write_schema :: "string \<Rightarrow> json \<Rightarrow> string list \<Rightarrow> world \<Rightarrow> world" where
  "write_schema stream schema key_properties w =
     w\<lparr>out := out w @ [SCHEMA stream schema key_properties]\<rparr>"

definition write_record :: "string \<Rightarrow> json \<Rightarrow> world \<Rightarrow> world" where
  "write_record stream r w = w\<lparr>out := out w @ [RECORD stream r]\<rparr>"

text \<open>The setter of \<^verbatim>\<open>SentrySync.state\<close>: \<^verbatim>\<open>singer.write_state(value)\<close>, then the store.\<close>

definition set_state :: "state \<Rightarrow> world \<Rightarrow> world" where
  "set_state v w = w\<lparr>out := out w @ [STATE v], state := v\<rparr>"

subsection \<open>\<^verbatim>\<open>SentryAuthentication\<close>\<close>

definition auth_call :: "string \<Rightarrow> request \<Rightarrow> request" where
  "auth_call api_token req =
     req\<lparr>headers := AList.update ''Authorization'' ('' Bearer '' @ api_token) (headers req)\<rparr>"

subsection \<open>\<^verbatim>\<open>SentryClient\<close>\<close>

definition session_get :: "env \<Rightarrow> string \<Rightarrow> world \<Rightarrow> (error + response) \<times> world" where
  "session_get env u w =
     (serve env u, w\<lparr>clock := clock w + latency env u, requests := requests w @ [u]\<rparr>)"

definition raise_for_status :: "response \<Rightarrow> error + response" where
  "raise_for_status r =
     (if 400 \<le> status_code r \<and> status_code r < 600 then Inl (HTTPError (status_code r))
      else Inr r)"

definition client_get :: "env \<Rightarrow> string \<Rightarrow> world \<Rightarrow> (error + response) \<times> world" where
  "client_get env path w =
     (case session_get env (base_url env @ path) w of
        (Inl e, w') \<Rightarrow> (Inl e, w')
      | (Inr r, w') \<Rightarrow> (raise_for_status r, w'))"

definition response_json :: "response \<Rightarrow> error + json" where
  "response_json r = (case body r of None \<Rightarrow> Inl ValueError | Some j \<Rightarrow> Inr j)"

text \<open>
  The loop condition shared by the four loops:
  \<^verbatim>\<open>links is not None and links.__len__() > 0 and links['next']['results'] == 'true'\<close>.
\<close>

definition more_results :: "response \<Rightarrow> error + bool" where
  "more_results r =
     (if links r = [] then Inr False
      else case map_of (links r) ''next'' of
             None \<Rightarrow> Inl (KeyError ''next'')
           | Some l \<Rightarrow> (case map_of l ''results'' of
                          None \<Rightarrow> Inl (KeyError ''results'')
                        | Some f \<Rightarrow> Inr (f = ''true'')))"

text \<open>\<^verbatim>\<open>response.links['next']['url']\<close>.\<close>

definition next_url :: "response \<Rightarrow> error + string" where
  "next_url r =
     (case map_of (links r) ''next'' of
        None \<Rightarrow> Inl (KeyError ''next'')
      | Some l \<Rightarrow> (case map_of l ''url'' of None \<Rightarrow> Inl (KeyError ''url'') | Some u \<Rightarrow> Inr u))"

text \<open>
  One turn of the loop body of \<^verbatim>\<open>issues\<close>, \<^verbatim>\<open>events\<close> and \<^verbatim>\<open>teams\<close>: fetch the next
  URL with \<^verbatim>\<open>session.get\<close> (no status check) and add its payload to the accumulator.
\<close>

definition fetch_next :: "env \<Rightarrow> response \<Rightarrow> json \<Rightarrow> world \<Rightarrow> (error + response \<times> json) \<times> world" where
  "fetch_next env r acc w =
     (case next_url r of
        Inl e \<Rightarrow> (Inl e, w)
      | Inr u \<Rightarrow>
          (case session_get env u w of
             (Inl e, w') \<Rightarrow> (Inl e, w')
           | (Inr r', w') \<Rightarrow>
               (case response_json r' of
                  Inl e \<Rightarrow> (Inl e, w')
                | Inr j \<Rightarrow>
                    (case py_iadd acc j of
                       Inl e \<Rightarrow> (Inl e, w')
                     | Inr acc' \<Rightarrow> (Inr (r', acc'), w')))))"

partial_function (option)
  paginate :: "env \<Rightarrow> response \<Rightarrow> json \<Rightarrow> world \<Rightarrow> ((error + json) \<times> world) option"
where
  "paginate env r acc w =
     (case more_results r of
        Inl e \<Rightarrow> Some (Inl e, w)
      | Inr continue \<Rightarrow>
          if \<not> continue then Some (Inr acc, w)
          else (case fetch_next env r acc w of
                  (Inl e, w') \<Rightarrow> Some (Inl e, w')
                | (Inr (r', acc'), w') \<Rightarrow> paginate env r' acc' w'))"

declare paginate.simps [code]

text \<open>The part of a list fetch after the first request: decode, then follow the links.\<close>

definition collect :: "env \<Rightarrow> (error + response) \<times> world \<Rightarrow> ((error + json) \<times> world) option" where
  "collect env first =
     (case first of
        (Inl e, w) \<Rightarrow> Some (Inl e, w)
      | (Inr r, w) \<Rightarrow>
          (case response_json r of
             Inl e \<Rightarrow> Some (Inl e, w)
           | Inr j \<Rightarrow> paginate env r j w))"

definition projects :: "env \<Rightarrow> world \<Rightarrow> (error + json) \<times> world" where
  "projects env w =
     (case client_get env ''projects/'' w of
        (Inl e, w') \<Rightarrow> (Inl e, w')
      | (Inr r, w') \<Rightarrow> (response_json r, w'))"

definition issues_query :: "env \<Rightarrow> json \<Rightarrow> state \<Rightarrow> string" where
  "issues_query env project_id st =
     (let bookmark = get_bookmark st ''issues'' ''start'';
          query = ''projects/rise-people/'' @ py_format env project_id @ ''/issues/''
      in case bookmark of
           None \<Rightarrow> query
         | Some b \<Rightarrow> if b = [] then query
                     else query @ ''?query='' @ quote env (''lastSeen:>='' @ b))"

definition issues :: "env \<Rightarrow> json \<Rightarrow> state \<Rightarrow> world \<Rightarrow> ((error + json) \<times> world) option" where
  "issues env project_id st w = collect env (client_get env (issues_query env project_id st) w)"

definition teams :: "env \<Rightarrow> state \<Rightarrow> world \<Rightarrow> ((error + json) \<times> world) option" where
  "teams env st w = collect env (client_get env ''organizations/rise-people/teams/'' w)"

definition users :: "env \<Rightarrow> state \<Rightarrow> world \<Rightarrow> (error + json) \<times> world" where
  "users env st w =
     (case client_get env ''organizations/rise-people/users/'' w of
        (Inl e, w') \<Rightarrow> (Inl e, w')
      | (Inr r, w') \<Rightarrow> (response_json r, w'))"

text \<open>
  \<^verbatim>\<open>events\<close>: the whole body stands in a \<^verbatim>\<open>try\<close> whose bare \<^verbatim>\<open>except\<close> returns
  \<^verbatim>\<open>None\<close>, so the function has no error result; \<open>events_body\<close> is the body and
  \<open>events_query\<close> the path it builds, with the clock read for the \<^verbatim>\<open>end\<close> parameter.
\<close>

definition events_query :: "env \<Rightarrow> json \<Rightarrow> state \<Rightarrow> world \<Rightarrow> string" where
  "events_query env project_id st w =
     (let bookmark = get_bookmark st ''events'' ''start'';
          query = ''/organizations/split-software/events/?project='' @ py_format env project_id
      in case bookmark of
           None \<Rightarrow> query
         | Some b \<Rightarrow> if b = [] then query
                     else query @ ''&start='' @ quote env b @ ''&utc=true'' @ ''&end=''
                            @ quote env (strftime env (clock w)))"

definition events_body :: "env \<Rightarrow> json \<Rightarrow> state \<Rightarrow> world \<Rightarrow> ((error + json) \<times> world) option" where
  "events_body env project_id st w =
     collect env (client_get env (events_query env project_id st w) w)"

definition events :: "env \<Rightarrow> json \<Rightarrow> state \<Rightarrow> world \<Rightarrow> (json option \<times> world) option" where
  "events env project_id st w =
     (case events_body env project_id st w of
        None \<Rightarrow> None
      | Some (Inl e, w') \<Rightarrow> Some (None, w')
      | Some (Inr evs, w') \<Rightarrow> Some (Some evs, w'))"

text \<open>
  \<^verbatim>\<open>_filter_activities\<close>: a list comprehension over the payload that keeps the
  activities whose \<^verbatim>\<open>dateCreated\<close> parses to an instant at or after the bookmark.
\<close>

fun filter_list :: "env \<Rightarrow> json list \<Rightarrow> nat \<Rightarrow> error + json list" where
  "filter_list env [] bookmark = Inr []"
| "filter_list env (a # rest) bookmark =
     (case subscript a ''dateCreated'' of
        Inl e \<Rightarrow> Inl e
      | Inr (JStr d) \<Rightarrow>
          (case parse env d of
             None \<Rightarrow> Inl ValueError
           | Some t \<Rightarrow>
               (case filter_list env rest bookmark of
                  Inl e \<Rightarrow> Inl e
                | Inr kept \<Rightarrow> Inr (if bookmark \<le> t then a # kept else kept)))
      | Inr _ \<Rightarrow> Inl TypeError)"

definition filter_activities :: "env \<Rightarrow> json \<Rightarrow> nat \<Rightarrow> error + json list" where
  "filter_activities env activities bookmark =
     (case py_iter activities of Inl e \<Rightarrow> Inl e | Inr xs \<Rightarrow> filter_list env xs bookmark)"

text \<open>One fetch of the loop of \<^verbatim>\<open>activity\<close>: next page, decoded and filtered.\<close>

definition fetch_next_activities ::
  "env \<Rightarrow> nat \<Rightarrow> response \<Rightarrow> world \<Rightarrow> (error + response \<times> json list) \<times> world" where
  "fetch_next_activities env bookmark r w =
     (case next_url r of
        Inl e \<Rightarrow> (Inl e, w)
      | Inr u \<Rightarrow>
          (case session_get env u w of
             (Inl e, w') \<Rightarrow> (Inl e, w')
           | (Inr r', w') \<Rightarrow>
               (case response_json r' of
                  Inl e \<Rightarrow> (Inl e, w')
                | Inr j \<Rightarrow>
                    (case filter_activities env j bookmark of
                       Inl e \<Rightarrow> (Inl e, w')
                     | Inr new_activities \<Rightarrow> (Inr (r', new_activities), w')))))"

partial_function (option)
  activity_loop ::
    "env \<Rightarrow> nat \<Rightarrow> response \<Rightarrow> json list \<Rightarrow> world \<Rightarrow> ((error + json list) \<times> world) option"
where
  "activity_loop env bookmark r activities w =
     (case more_results r of
        Inl e \<Rightarrow> Some (Inl e, w)
      | Inr continue \<Rightarrow>
          if \<not> continue then Some (Inr activities, w)
          else (case fetch_next_activities env bookmark r w of
                  (Inl e, w') \<Rightarrow> Some (Inl e, w')
                | (Inr (r', new_activities), w') \<Rightarrow>
                    if new_activities = [] then Some (Inr activities, w')
                    else activity_loop env bookmark r' (activities @ new_activities) w'))"

declare activity_loop.simps [code]

definition activity :: "env \<Rightarrow> state \<Rightarrow> world \<Rightarrow> ((error + json list) \<times> world) option" where
  "activity env st w =
     (case get_bookmark st ''activity'' ''start'' of
        None \<Rightarrow> Some (Inl TypeError, w)
      | Some b \<Rightarrow>
          (case parse env b of
             None \<Rightarrow> Some (Inl ValueError, w)
           | Some bookmark \<Rightarrow>
               (case client_get env ''organizations/rise-people/activity/'' w of
                  (Inl e, w') \<Rightarrow> Some (Inl e, w')
                | (Inr r, w') \<Rightarrow>
                    (case response_json r of
                       Inl e \<Rightarrow> Some (Inl e, w')
                     | Inr j \<Rightarrow>
                         (case filter_activities env j bookmark of
                            Inl e \<Rightarrow> Some (Inl e, w')
                          | Inr activities \<Rightarrow>
                              if activities = [] then Some (Inr activities, w')
                              else activity_loop env bookmark r activities w')))))"

subsection \<open>\<^verbatim>\<open>SentrySync\<close>\<close>

text \<open>
  Every sync procedure takes the project list cached by the constructor
  (\<^verbatim>\<open>self.projects = self.client.projects()\<close>) and the schema. An awaited
  \<^verbatim>\<open>run_in_executor\<close> call is the call itself: the coroutine resumes only with its result.
\<close>

primrec emit_records :: "string \<Rightarrow> json list \<Rightarrow> world \<Rightarrow> world" where
  "emit_records stream [] w = w"
| "emit_records stream (r # rest) w = emit_records stream rest (write_record stream r w)"

text \<open>Lines 174 to 176: the id is appended to \<^verbatim>\<open>issues_synced\<close>, then the issue written.\<close>

fun emit_issues :: "json list \<Rightarrow> json list \<Rightarrow> world \<Rightarrow> (error + json list) \<times> world" where
  "emit_issues [] issues_synced w = (Inr issues_synced, w)"
| "emit_issues (issue # rest) issues_synced w =
     (case subscript issue ''id'' of
        Inl e \<Rightarrow> (Inl e, w)
      | Inr i \<Rightarrow> emit_issues rest (issues_synced @ [i]) (write_record ''issues'' issue w))"

fun issues_per_project ::
  "env \<Rightarrow> json list \<Rightarrow> json list \<Rightarrow> world \<Rightarrow> ((error + json list) \<times> world) option" where
  "issues_per_project env [] issues_synced w = Some (Inr issues_synced, w)"
| "issues_per_project env (project # rest) issues_synced w =
     (case subscript project ''slug'' of
        Inl e \<Rightarrow> Some (Inl e, w)
      | Inr slug \<Rightarrow>
          (case issues env slug (state w) w of
             None \<Rightarrow> None
           | Some (Inl e, w1) \<Rightarrow> Some (Inl e, w1)
           | Some (Inr found, w1) \<Rightarrow>
               if truthy found then
                 (case py_iter found of
                    Inl e \<Rightarrow> Some (Inl e, w1)
                  | Inr xs \<Rightarrow>
                      (case emit_issues xs issues_synced w1 of
                         (Inl e, w2) \<Rightarrow> Some (Inl e, w2)
                       | (Inr synced, w2) \<Rightarrow> issues_per_project env rest synced w2))
               else issues_per_project env rest issues_synced w1))"

definition sync_issues_projects ::
  "env \<Rightarrow> json \<Rightarrow> world \<Rightarrow> ((error + json list) \<times> world) option" where
  "sync_issues_projects env self_projects w =
     (if truthy self_projects then
        (case py_iter self_projects of
           Inl e \<Rightarrow> Some (Inl e, w)
         | Inr ps \<Rightarrow> issues_per_project env ps [] w)
      else Some (Inr [], w))"

text \<open>\<^verbatim>\<open>[activity for activity in activities if activity['issue']]\<close>\<close>

fun issue_activities :: "json list \<Rightarrow> error + json list" where
  "issue_activities [] = Inr []"
| "issue_activities (a # rest) =
     (case subscript a ''issue'' of
        Inl e \<Rightarrow> Inl e
      | Inr i \<Rightarrow>
          (case issue_activities rest of
             Inl e \<Rightarrow> Inl e
           | Inr kept \<Rightarrow> Inr (if truthy i then a # kept else kept)))"

text \<open>Lines 183 to 187: a nested issue is written unless its id is in \<^verbatim>\<open>issues_synced\<close>.\<close>

fun emit_activity_issues ::
  "json list \<Rightarrow> json list \<Rightarrow> world \<Rightarrow> (error + json list) \<times> world" where
  "emit_activity_issues [] issues_synced w = (Inr issues_synced, w)"
| "emit_activity_issues (a # rest) issues_synced w =
     (case subscript a ''issue'' of
        Inl e \<Rightarrow> (Inl e, w)
      | Inr issue \<Rightarrow>
          (case subscript issue ''id'' of
             Inl e \<Rightarrow> (Inl e, w)
           | Inr i \<Rightarrow>
               if i \<notin> set issues_synced
               then emit_activity_issues rest (issues_synced @ [i]) (write_record ''issues'' issue w)
               else emit_activity_issues rest issues_synced w))"

text \<open>Lines 180 to 189 of \<^verbatim>\<open>sync_issues\<close>, after the \<^verbatim>\<open>issues\<close> bookmark is written.\<close>

definition sync_issues_activities ::
  "env \<Rightarrow> nat \<Rightarrow> json list \<Rightarrow> world \<Rightarrow> ((error + unit) \<times> world) option" where
  "sync_issues_activities env extraction_time issues_synced w =
     (case activity env (state w) w of
        None \<Rightarrow> None
      | Some (Inl e, w1) \<Rightarrow> Some (Inl e, w1)
      | Some (Inr activities, w1) \<Rightarrow>
          (case (if activities \<noteq> [] then
                   (case issue_activities activities of
                      Inl e \<Rightarrow> (Inl e, w1)
                    | Inr ias \<Rightarrow> emit_activity_issues ias issues_synced w1)
                 else (Inr issues_synced, w1)) of
             (Inl e, w2) \<Rightarrow> Some (Inl e, w2)
           | (Inr synced, w2) \<Rightarrow>
               Some (Inr (),
                     set_state (write_bookmark (state w2) ''activity'' ''start''
                                  (strftime env extraction_time)) w2)))"

definition sync_issues :: "env \<Rightarrow> json \<Rightarrow> json \<Rightarrow> world \<Rightarrow> ((error + unit) \<times> world) option" where
  "sync_issues env self_projects schema w =
     (let w1 = write_schema ''issues'' schema [''id''] w;
          extraction_time = clock w1
      in case sync_issues_projects env self_projects w1 of
           None \<Rightarrow> None
         | Some (Inl e, w2) \<Rightarrow> Some (Inl e, w2)
         | Some (Inr issues_synced, w2) \<Rightarrow>
             sync_issues_activities env extraction_time issues_synced
               (set_state (write_bookmark (state w2) ''issues'' ''start''
                             (strftime env extraction_time)) w2))"

definition sync_projects :: "json \<Rightarrow> json \<Rightarrow> world \<Rightarrow> (error + unit) \<times> world" where
  "sync_projects self_projects schema w =
     (let w1 = write_schema ''projects'' schema [''id''] w
      in if truthy self_projects then
           (case py_iter self_projects of
              Inl e \<Rightarrow> (Inl e, w1)
            | Inr ps \<Rightarrow> (Inr (), emit_records ''projects'' ps w1))
         else (Inr (), w1))"

fun events_per_project ::
  "env \<Rightarrow> json list \<Rightarrow> world \<Rightarrow> ((error + unit) \<times> world) option" where
  "events_per_project env [] w = Some (Inr (), w)"
| "events_per_project env (project # rest) w =
     (case subscript project ''id'' of
        Inl e \<Rightarrow> Some (Inl e, w)
      | Inr project_id \<Rightarrow>
          (case events env project_id (state w) w of
             None \<Rightarrow> None
           | Some (None, w1) \<Rightarrow> events_per_project env rest w1
           | Some (Some found, w1) \<Rightarrow>
               if truthy found then
                 (case py_iter found of
                    Inl e \<Rightarrow> Some (Inl e, w1)
                  | Inr xs \<Rightarrow> events_per_project env rest (emit_records ''events'' xs w1))
               else events_per_project env rest w1))"

definition sync_events :: "env \<Rightarrow> json \<Rightarrow> json \<Rightarrow> world \<Rightarrow> ((error + unit) \<times> world) option" where
  "sync_events env self_projects schema w =
     (let w1 = write_schema ''events'' schema [''eventID''] w;
          extraction_time = clock w1
      in if truthy self_projects then
           (case py_iter self_projects of
              Inl e \<Rightarrow> Some (Inl e, w1)
            | Inr ps \<Rightarrow>
                (case events_per_project env ps w1 of
                   None \<Rightarrow> None
                 | Some (Inl e, w2) \<Rightarrow> Some (Inl e, w2)
                 | Some (Inr u, w2) \<Rightarrow>
                     Some (Inr (),
                           set_state (write_bookmark (state w2) ''events'' ''start''
                                        (strftime env extraction_time)) w2)))
         else Some (Inr (), w1))"

definition sync_users :: "env \<Rightarrow> json \<Rightarrow> world \<Rightarrow> (error + unit) \<times> world" where
  "sync_users env schema w =
     (let w1 = write_schema ''users'' schema [''id''] w
      in case users env (state w1) w1 of
           (Inl e, w2) \<Rightarrow> (Inl e, w2)
         | (Inr found, w2) \<Rightarrow>
             if truthy found then
               (case py_iter found of
                  Inl e \<Rightarrow> (Inl e, w2)
                | Inr xs \<Rightarrow> (Inr (), emit_records ''users'' xs w2))
             else (Inr (), w2))"

definition sync_teams :: "env \<Rightarrow> json \<Rightarrow> world \<Rightarrow> ((error + unit) \<times> world) option" where
  "sync_teams env schema w =
     (let w1 = write_schema ''teams'' schema [''id''] w
      in case teams env (state w1) w1 of
           None \<Rightarrow> None
         | Some (Inl e, w2) \<Rightarrow> Some (Inl e, w2)
         | Some (Inr found, w2) \<Rightarrow>
             if truthy found then
               (case py_iter found of
                  Inl e \<Rightarrow> Some (Inl e, w2)
                | Inr xs \<Rightarrow> Some (Inr (), emit_records ''teams'' xs w2))
             else Some (Inr (), w2))"

section \<open>Page chains and concrete runs\<close>

subsection \<open>Finite chains of pages\<close>

text \<open>
  A page ends a chain when it has no link relations at all, or a \<^verbatim>\<open>next\<close> relation whose
  \<^verbatim>\<open>results\<close> attribute is present and is not \<^verbatim>\<open>true\<close>. \<open>page_chain env r rest\<close> says
  that \<open>rest\<close> lists, with their URLs, the pages the server links after \<open>r\<close>.
\<close>

definition last_page :: "response \<Rightarrow> bool" where
  "last_page r =
     (links r = [] \<or>
      (case map_of (links r) ''next'' of
         None \<Rightarrow> False
       | Some l \<Rightarrow> (case map_of l ''results'' of None \<Rightarrow> False | Some f \<Rightarrow> f \<noteq> ''true'')))"

fun page_chain :: "env \<Rightarrow> response \<Rightarrow> (string \<times> response) list \<Rightarrow> bool" where
  "page_chain env r [] = last_page r"
| "page_chain env r ((u, r') # rest) =
     (case map_of (links r) ''next'' of
        None \<Rightarrow> False
      | Some l \<Rightarrow> map_of l ''results'' = Some ''true'' \<and> map_of l ''url'' = Some u
                  \<and> serve env u = Inr r' \<and> page_chain env r' rest)"

definition has_records :: "response \<Rightarrow> bool" where
  "has_records r = (case body r of Some (JArr xs) \<Rightarrow> True | _ \<Rightarrow> False)"

definition records :: "response \<Rightarrow> json list" where
  "records r = (case body r of Some (JArr xs) \<Rightarrow> xs | _ \<Rightarrow> [])"

text \<open>The world after the requests \<open>us\<close>, made in this order.\<close>

definition after_requests :: "env \<Rightarrow> string list \<Rightarrow> world \<Rightarrow> world" where
  "after_requests env us w =
     w\<lparr>clock := clock w + sum_list (map (latency env) us), requests := requests w @ us\<rparr>"

text \<open>
  For \<^verbatim>\<open>activity\<close>: \<open>filters env bookmark r\<close> says that the page decodes and that
  \<^verbatim>\<open>_filter_activities\<close> returns on it, \<open>kept env bookmark r\<close> is what it returns, the
  entries dated at or after the bookmark.
\<close>

definition kept :: "env \<Rightarrow> nat \<Rightarrow> response \<Rightarrow> json list" where
  "kept env bookmark r =
     (case body r of
        None \<Rightarrow> []
      | Some j \<Rightarrow> (case filter_activities env j bookmark of Inl e \<Rightarrow> [] | Inr xs \<Rightarrow> xs))"

definition filters :: "env \<Rightarrow> nat \<Rightarrow> response \<Rightarrow> bool" where
  "filters env bookmark r =
     (case body r of
        None \<Rightarrow> False
      | Some j \<Rightarrow> (case filter_activities env j bookmark of Inl e \<Rightarrow> False | Inr xs \<Rightarrow> True))"

subsection \<open>Concrete servers\<close>

text \<open>
  A test environment: every request takes one time unit, the instant \<open>n\<close> is written
  \<open>t\<close> followed by \<open>n\<close> strokes, and \<open>parse\<close> reads that notation back.
\<close>

definition test_env :: "(string \<Rightarrow> error + response) \<Rightarrow> env" where
  "test_env srv =
     \<lparr>base_url = ''h/'', serve = srv, latency = (\<lambda>u. 1),
      strftime = (\<lambda>n. CHR ''t'' # replicate n CHR ''I''),
      parse = (\<lambda>s. if s = [] then None else Some (length s - 1)),
      quote = (\<lambda>s. s),
      py_format = (\<lambda>j. case j of JStr s \<Rightarrow> s | _ \<Rightarrow> ''?'')\<rparr>"

definition page :: "nat \<Rightarrow> json \<Rightarrow> (string \<times> (string \<times> string) list) list \<Rightarrow> response" where
  "page code j ls = \<lparr>status_code = code, url = [], links = ls, body = Some j\<rparr>"

definition next_link :: "string \<Rightarrow> string \<Rightarrow> (string \<times> (string \<times> string) list) list" where
  "next_link u f =
     [(''previous'', [(''url'', ''p0''), (''results'', ''false'')]),
      (''next'', [(''url'', u), (''results'', f)])]"

definition start_world :: "state \<Rightarrow> world" where
  "start_world st = \<lparr>clock = 7, requests = [], state = st, out = []\<rparr>"

definition team :: "string \<Rightarrow> json" where
  "team i = JObj [(''id'', JStr i)]"

text \<open>Two pages of teams; the second still names a next URL, with \<^verbatim>\<open>results="false"\<close>.\<close>

definition teams_server :: "string \<Rightarrow> error + response" where
  "teams_server u =
     (if u = ''h/organizations/rise-people/teams/''
        then Inr (page 200 (JArr [team ''1'']) (next_link ''p2'' ''true''))
      else if u = ''p2'' then Inr (page 200 (JArr [team ''2'']) (next_link ''p3'' ''false''))
      else Inl RequestException)"

text \<open>One page of teams whose \<^verbatim>\<open>Link\<close> header names the previous page only.\<close>

definition previous_only_server :: "string \<Rightarrow> error + response" where
  "previous_only_server u =
     (if u = ''h/organizations/rise-people/teams/''
        then Inr (page 200 (JArr [team ''1'']) [(''previous'', [(''url'', ''p0''), (''results'', ''false'')])])
      else Inl RequestException)"

definition act :: "string \<Rightarrow> string \<Rightarrow> json" where
  "act d i = JObj [(''dateCreated'', JStr d), (''issue'', JObj [(''id'', JStr i)])]"

text \<open>
  Three pages of activity: a fresh entry, then a page of old entries, then an entry
  that is newer than all the others.
\<close>

definition activity_server :: "string \<Rightarrow> error + response" where
  "activity_server u =
     (if u = ''h/organizations/rise-people/activity/''
        then Inr (page 200 (JArr [act ''tIII'' ''1'']) (next_link ''a2'' ''true''))
      else if u = ''a2'' then Inr (page 200 (JArr [act ''tI'' ''2'']) (next_link ''a3'' ''true''))
      else if u = ''a3'' then Inr (page 200 (JArr [act ''tIIIIII'' ''3'']) [])
      else Inl RequestException)"

definition issue :: "string \<Rightarrow> json" where
  "issue i = JObj [(''id'', JStr i)]"

definition project :: "string \<Rightarrow> string \<Rightarrow> json" where
  "project i s = JObj [(''id'', JStr i), (''slug'', JStr s)]"

definition event :: "string \<Rightarrow> json" where
  "event i = JObj [(''eventID'', JStr i)]"

text \<open>
  One project with one issue, and one page of activity with two fresh entries: the
  first refers to that issue, the second to another one.
\<close>

definition sync_server :: "string \<Rightarrow> error + response" where
  "sync_server u =
     (if u = ''h/projects/rise-people/a/issues/'' then Inr (page 200 (JArr [issue ''1'']) [])
      else if u = ''h/organizations/rise-people/activity/''
        then Inr (page 200 (JArr [act ''tIII'' ''1'', act ''tIII'' ''2'']) [])
      else Inl RequestException)"

text \<open>The issues endpoint lists the same issue twice; there is no activity.\<close>

definition duplicate_server :: "string \<Rightarrow> error + response" where
  "duplicate_server u =
     (if u = ''h/projects/rise-people/a/issues/''
        then Inr (page 200 (JArr [issue ''1'', issue ''1'']) [])
      else if u = ''h/organizations/rise-people/activity/'' then Inr (page 200 (JArr []) [])
      else Inl RequestException)"

text \<open>Events for the projects 1 and 3; every other request fails.\<close>

definition events_server :: "string \<Rightarrow> error + response" where
  "events_server u =
     (if u = ''h//organizations/split-software/events/?project=1''
        then Inr (page 200 (JArr [event ''e1'']) [])
      else if u = ''h//organizations/split-software/events/?project=3''
        then Inr (page 200 (JArr [event ''e3'']) [])
      else Inl RequestException)"

text \<open>The second page of teams is a 404 with the error payload of the API.\<close>

definition teams_error_server :: "string \<Rightarrow> error + response" where
  "teams_error_server u =
     (if u = ''h/organizations/rise-people/teams/''
        then Inr (page 200 (JArr [team ''1'']) (next_link ''p2'' ''true''))
      else if u = ''p2'' then Inr (page 404 (JObj [(''detail'', JStr ''Not found'')]) [])
      else Inl RequestException)"

text \<open>The events endpoint answers with a number instead of a list.\<close>

definition number_events_server :: "string \<Rightarrow> error + response" where
  "number_events_server u =
     (if u = ''h//organizations/split-software/events/?project=1''
        then Inr (page 200 (JNum 5) [])
      else Inl RequestException)"

subsection \<open>Reading the output\<close>

text \<open>The id of an emitted issue record (\<open>JNull\<close> for a value that has none).\<close>

definition issue_id :: "json \<Rightarrow> json" where
  "issue_id j = (case subscript j ''id'' of Inl e \<Rightarrow> JNull | Inr i \<Rightarrow> i)"

section \<open>Properties of the model\<close>

subsection \<open>Following a chain of pages\<close>

lemma after_requests_Nil: "after_requests env [] w = w"
  by (simp add: after_requests_def)

lemma after_requests_Cons:
  "after_requests env us (snd (session_get env u w)) = after_requests env (u # us) w"
  by (simp add: after_requests_def session_get_def add.assoc)

lemma paginate_last: "last_page r \<Longrightarrow> paginate env r acc w = Some (Inr acc, w)"
  by (subst paginate.simps) (auto simp: last_page_def more_results_def split: option.splits)

lemma has_records_body: "has_records r \<Longrightarrow> body r = Some (JArr (records r))"
  by (auto simp: has_records_def records_def split: option.splits json.splits)

lemma paginate_chain:
  "page_chain env r rest \<Longrightarrow> list_all (\<lambda>p. has_records (snd p)) rest \<Longrightarrow>
   paginate env r (JArr xs) w =
     Some (Inr (JArr (xs @ concat (map (\<lambda>p. records (snd p)) rest))),
           after_requests env (map fst rest) w)"
proof (induction rest arbitrary: r xs w)
  case Nil
  then show ?case by (simp add: paginate_last after_requests_Nil)
next
  case (Cons p rest)
  obtain u r' where p: "p = (u, r')" by (cases p)
  from Cons.prems p obtain l where
    l: "map_of (links r) ''next'' = Some l" "map_of l ''results'' = Some ''true''"
       "map_of l ''url'' = Some u" "serve env u = Inr r'" and
    chain: "page_chain env r' rest"
    by (auto split: option.splits)
  from Cons.prems p have recs: "body r' = Some (JArr (records r'))"
    and rest: "list_all (\<lambda>p. has_records (snd p)) rest"
    by (simp_all add: has_records_body)
  have ne: "links r \<noteq> []" using l(1) by auto
  have more: "more_results r = Inr True"
    using l ne by (simp add: more_results_def)
  have step: "fetch_next env r (JArr xs) w
                = (Inr (r', JArr (xs @ records r')), snd (session_get env u w))"
    using l recs by (simp add: fetch_next_def next_url_def session_get_def response_json_def)
  have "paginate env r (JArr xs) w
          = paginate env r' (JArr (xs @ records r')) (snd (session_get env u w))"
    by (subst paginate.simps) (simp add: more step)
  also have "\<dots> = Some (Inr (JArr ((xs @ records r') @ concat (map (\<lambda>p. records (snd p)) rest))),
           after_requests env (map fst rest) (snd (session_get env u w)))"
    by (rule Cons.IH [OF chain rest])
  finally show ?case by (simp add: p after_requests_Cons)
qed

lemma collect_chain:
  assumes "serve env (base_url env @ path) = Inr r0"
      and "\<not> (400 \<le> status_code r0 \<and> status_code r0 < 600)"
      and "page_chain env r0 rest"
      and "list_all has_records (r0 # map snd rest)"
  shows "collect env (client_get env path w) =
     Some (Inr (JArr (concat (map records (r0 # map snd rest)))),
           after_requests env ((base_url env @ path) # map fst rest) w)"
proof -
  have first: "client_get env path w = (Inr r0, snd (session_get env (base_url env @ path) w))"
    using assms(1,2) by (simp add: client_get_def session_get_def raise_for_status_def)
  have b: "body r0 = Some (JArr (records r0))" using assms(4) by (simp add: has_records_body)
  have rs: "list_all (\<lambda>p. has_records (snd p)) rest" using assms(4) by (simp add: list_all_iff)
  show ?thesis
    unfolding first collect_def
    by (simp add: response_json_def b paginate_chain [OF assms(3) rs] after_requests_Cons comp_def)
qed

subsection \<open>The activity loop on a chain of pages\<close>

lemma activity_loop_last: "last_page r \<Longrightarrow> activity_loop env b r acts w = Some (Inr acts, w)"
  by (subst activity_loop.simps) (auto simp: last_page_def more_results_def split: option.splits)

lemma filters_kept:
  "filters env b r \<Longrightarrow> \<exists>j. body r = Some j \<and> filter_activities env j b = Inr (kept env b r)"
  by (auto simp: filters_def kept_def split: option.splits sum.splits)

lemma activity_loop_chain:
  "page_chain env r rest \<Longrightarrow> list_all (\<lambda>p. filters env b (snd p)) rest \<Longrightarrow>
   activity_loop env b r acts w =
     Some (Inr (acts @ concat (map (\<lambda>p. kept env b (snd p))
                          (takeWhile (\<lambda>p. kept env b (snd p) \<noteq> []) rest))),
           after_requests env
             (map fst (take (Suc (length (takeWhile (\<lambda>p. kept env b (snd p) \<noteq> []) rest))) rest)) w)"
proof (induction rest arbitrary: r acts w)
  case Nil
  then show ?case by (simp add: activity_loop_last after_requests_Nil)
next
  case (Cons p rest)
  obtain u r' where p: "p = (u, r')" by (cases p)
  from Cons.prems p obtain l where
    l: "map_of (links r) ''next'' = Some l" "map_of l ''results'' = Some ''true''"
       "map_of l ''url'' = Some u" "serve env u = Inr r'" and
    chain: "page_chain env r' rest"
    by (auto split: option.splits)
  from Cons.prems p have f: "filters env b r'"
    and rest: "list_all (\<lambda>p. filters env b (snd p)) rest"
    by simp_all
  from filters_kept [OF f] obtain j where
    j: "body r' = Some j" "filter_activities env j b = Inr (kept env b r')" by auto
  have ne: "links r \<noteq> []" using l(1) by auto
  have more: "more_results r = Inr True"
    using l ne by (simp add: more_results_def)
  have step: "fetch_next_activities env b r w
                = (Inr (r', kept env b r'), snd (session_get env u w))"
    using l j by (simp add: fetch_next_activities_def next_url_def session_get_def response_json_def)
  show ?case
  proof (cases "kept env b r' = []")
    case True
    have "activity_loop env b r acts w = Some (Inr acts, snd (session_get env u w))"
      by (subst activity_loop.simps) (simp add: more step True)
    moreover have "snd (session_get env u w) = after_requests env [u] w"
      using after_requests_Cons [of env "[]" u w] by (simp add: after_requests_Nil)
    ultimately show ?thesis using True by (simp add: p)
  next
    case False
    have "activity_loop env b r acts w
            = activity_loop env b r' (acts @ kept env b r') (snd (session_get env u w))"
      by (subst activity_loop.simps) (simp add: more step False)
    also note Cons.IH [OF chain rest]
    finally show ?thesis using False by (simp add: p after_requests_Cons)
  qed
qed

lemma activity_chain:
  assumes "get_bookmark st ''activity'' ''start'' = Some b" and "parse env b = Some bookmark"
      and "serve env (base_url env @ ''organizations/rise-people/activity/'') = Inr r0"
      and "\<not> (400 \<le> status_code r0 \<and> status_code r0 < 600)"
      and "page_chain env r0 rest"
      and "list_all (filters env bookmark) (r0 # map snd rest)"
  shows "activity env st w =
     Some (Inr (concat (map (kept env bookmark)
                   (takeWhile (\<lambda>r. kept env bookmark r \<noteq> []) (r0 # map snd rest)))),
           after_requests env
             (take (Suc (length (takeWhile (\<lambda>r. kept env bookmark r \<noteq> []) (r0 # map snd rest))))
                ((base_url env @ ''organizations/rise-people/activity/'') # map fst rest)) w)"
proof -
  let ?u = "base_url env @ ''organizations/rise-people/activity/''"
  have first: "client_get env ''organizations/rise-people/activity/'' w
                 = (Inr r0, snd (session_get env ?u w))"
    using assms(3,4) by (simp add: client_get_def session_get_def raise_for_status_def)
  from assms(6) have f0: "filters env bookmark r0"
    and rs: "list_all (\<lambda>p. filters env bookmark (snd p)) rest"
    by (simp_all add: list_all_iff)
  from filters_kept [OF f0] obtain j where
    j: "body r0 = Some j" "filter_activities env j bookmark = Inr (kept env bookmark r0)" by auto
  have one: "snd (session_get env ?u w) = after_requests env [?u] w"
    using after_requests_Cons [of env "[]" ?u w] by (simp add: after_requests_Nil)
  have tw: "takeWhile (\<lambda>r. kept env bookmark r \<noteq> []) (map snd rest)
              = map snd (takeWhile (\<lambda>p. kept env bookmark (snd p) \<noteq> []) rest)"
    by (simp add: takeWhile_map comp_def)
  show ?thesis
  proof (cases "kept env bookmark r0 = []")
    case True
    then show ?thesis
      using assms(1,2) first j one
      by (simp add: activity_def response_json_def)
  next
    case False
    have "activity env st w
            = activity_loop env bookmark r0 (kept env bookmark r0) (snd (session_get env ?u w))"
      using assms(1,2) first j False by (simp add: activity_def response_json_def)
    also note activity_loop_chain [OF assms(5) rs]
    finally show ?thesis
      using False by (simp add: tw after_requests_Cons take_map comp_def)
  qed
qed

subsection \<open>Client calls leave the state and the output alone\<close>

lemma session_get_frame: "session_get env u w = (x, w') \<Longrightarrow> state w' = state w \<and> out w' = out w"
  by (auto simp: session_get_def)

lemma client_get_frame: "client_get env p w = (x, w') \<Longrightarrow> state w' = state w \<and> out w' = out w"
  by (auto simp: client_get_def session_get_def split: sum.splits)

lemma fetch_next_frame: "fetch_next env r acc w = (x, w') \<Longrightarrow> state w' = state w \<and> out w' = out w"
  by (auto simp: fetch_next_def session_get_def split: sum.splits)

lemma fetch_next_activities_frame:
  "fetch_next_activities env b r w = (x, w') \<Longrightarrow> state w' = state w \<and> out w' = out w"
  by (auto simp: fetch_next_activities_def session_get_def split: sum.splits)

lemma paginate_frame:
  assumes "paginate env r acc w = Some y"
  shows "state (snd y) = state w \<and> out (snd y) = out w"
proof (rule paginate.raw_induct
    [where P = "\<lambda>env r acc w y. state (snd y) = state w \<and> out (snd y) = out w", OF _ assms])
  fix pag :: "env \<Rightarrow> response \<Rightarrow> json \<Rightarrow> world \<Rightarrow> ((error + json) \<times> world) option"
  fix env r acc w y
  assume IH: "\<And>env r acc w y. pag env r acc w = Some y
                \<Longrightarrow> state (snd y) = state w \<and> out (snd y) = out w"
  assume eq: "(case more_results r of
                 Inl e \<Rightarrow> Some (Inl e, w)
               | Inr continue \<Rightarrow>
                   if \<not> continue then Some (Inr acc, w)
                   else (case fetch_next env r acc w of
                           (Inl e, w') \<Rightarrow> Some (Inl e, w')
                         | (Inr (r', acc'), w') \<Rightarrow> pag env r' acc' w')) = Some y"
  obtain x w1 where f: "fetch_next env r acc w = (x, w1)" by (cases "fetch_next env r acc w")
  then have fr: "state w1 = state w \<and> out w1 = out w" by (rule fetch_next_frame)
  from eq f fr show "state (snd y) = state w \<and> out (snd y) = out w"
    by (auto split: sum.splits if_splits dest: IH)
qed

lemma activity_loop_frame:
  assumes "activity_loop env b r acts w = Some y"
  shows "state (snd y) = state w \<and> out (snd y) = out w"
proof (rule activity_loop.raw_induct
    [where P = "\<lambda>env b r acts w y. state (snd y) = state w \<and> out (snd y) = out w", OF _ assms])
  fix lp :: "env \<Rightarrow> nat \<Rightarrow> response \<Rightarrow> json list \<Rightarrow> world \<Rightarrow> ((error + json list) \<times> world) option"
  fix env b r acts w y
  assume IH: "\<And>env b r acts w y. lp env b r acts w = Some y
                \<Longrightarrow> state (snd y) = state w \<and> out (snd y) = out w"
  assume eq: "(case more_results r of
                 Inl e \<Rightarrow> Some (Inl e, w)
               | Inr continue \<Rightarrow>
                   if \<not> continue then Some (Inr acts, w)
                   else (case fetch_next_activities env b r w of
                           (Inl e, w') \<Rightarrow> Some (Inl e, w')
                         | (Inr (r', new_activities), w') \<Rightarrow>
                             if new_activities = [] then Some (Inr acts, w')
                             else lp env b r' (acts @ new_activities) w')) = Some y"
  obtain x w1 where f: "fetch_next_activities env b r w = (x, w1)"
    by (cases "fetch_next_activities env b r w")
  then have fr: "state w1 = state w \<and> out w1 = out w" by (rule fetch_next_activities_frame)
  show "state (snd y) = state w \<and> out (snd y) = out w"
  proof (cases x)
    case (Inl e)
    with eq f fr show ?thesis by (auto split: sum.splits if_splits)
  next
    case (Inr p)
    obtain r' new where p: "p = (r', new)" by (cases p)
    show ?thesis
    proof (cases "more_results r = Inr True \<and> new \<noteq> []")
      case True
      with eq f Inr p have "lp env b r' (acts @ new) w1 = Some y" by simp
      from IH [OF this] fr show ?thesis by simp
    next
      case False
      with eq f fr Inr p show ?thesis by (auto split: sum.splits if_splits)
    qed
  qed
qed

lemma collect_frame:
  "collect env (client_get env p w) = Some y \<Longrightarrow> state (snd y) = state w \<and> out (snd y) = out w"
  unfolding collect_def
  by (cases "client_get env p w")
     (auto split: sum.splits dest!: paginate_frame client_get_frame)

lemma issues_frame:
  "issues env pid st w = Some y \<Longrightarrow> state (snd y) = state w \<and> out (snd y) = out w"
  unfolding issues_def by (rule collect_frame)

lemma teams_frame:
  "teams env st w = Some y \<Longrightarrow> state (snd y) = state w \<and> out (snd y) = out w"
  unfolding teams_def by (rule collect_frame)

lemma events_frame:
  "events env pid st w = Some y \<Longrightarrow> state (snd y) = state w \<and> out (snd y) = out w"
  unfolding events_def events_body_def
  by (auto split: option.splits sum.splits prod.splits dest!: collect_frame)

lemma activity_frame:
  "activity env st w = Some y \<Longrightarrow> state (snd y) = state w \<and> out (snd y) = out w"
  unfolding activity_def
  by (cases "client_get env ''organizations/rise-people/activity/'' w")
     (auto split: option.splits sum.splits if_splits dest!: activity_loop_frame client_get_frame)

subsection \<open>What the sync procedures write\<close>

lemma get_write_bookmark:
  "get_bookmark (write_bookmark st s k v) s' k'
     = (if s' = s \<and> k' = k then Some v else get_bookmark st s' k')"
  by (simp add: get_bookmark_def write_bookmark_def update_conv')

lemma write_schema_frame [simp]:
  "clock (write_schema s sc ks w) = clock w" "state (write_schema s sc ks w) = state w"
  "requests (write_schema s sc ks w) = requests w"
  "out (write_schema s sc ks w) = out w @ [SCHEMA s sc ks]"
  by (simp_all add: write_schema_def)

lemma write_record_frame [simp]:
  "clock (write_record s r w) = clock w" "state (write_record s r w) = state w"
  "requests (write_record s r w) = requests w"
  "out (write_record s r w) = out w @ [RECORD s r]"
  by (simp_all add: write_record_def)

lemma set_state_frame [simp]:
  "clock (set_state v w) = clock w" "state (set_state v w) = v"
  "requests (set_state v w) = requests w"
  "out (set_state v w) = out w @ [STATE v]"
  by (simp_all add: set_state_def)

lemma emit_records_frame [simp]:
  "clock (emit_records s xs w) = clock w" "state (emit_records s xs w) = state w"
  "requests (emit_records s xs w) = requests w"
  "out (emit_records s xs w) = out w @ map (RECORD s) xs"
  by (induction xs arbitrary: w; simp)+

lemma emit_issues_out:
  "emit_issues xs synced w = (x, w') \<Longrightarrow>
   state w' = state w \<and>
   (\<exists>recs. out w' = out w @ map (RECORD ''issues'') recs
      \<and> (\<forall>synced'. x = Inr synced' \<longrightarrow> synced' = synced @ map issue_id recs))"
proof (induction xs arbitrary: synced w)
  case Nil
  then show ?case by auto
next
  case (Cons issue rest)
  show ?case
  proof (cases "subscript issue ''id''")
    case (Inl e)
    with Cons.prems show ?thesis by auto
  next
    case (Inr i)
    with Cons.prems have "emit_issues rest (synced @ [i]) (write_record ''issues'' issue w) = (x, w')"
      by simp
    from Cons.IH [OF this] obtain recs where
      st: "state w' = state w" and
      o: "out w' = out w @ map (RECORD ''issues'') (issue # recs)" and
      s: "\<forall>synced'. x = Inr synced' \<longrightarrow> synced' = (synced @ [i]) @ map issue_id recs"
      by auto
    have "issue_id issue = i" using Inr by (simp add: issue_id_def)
    with s have "\<forall>synced'. x = Inr synced' \<longrightarrow> synced' = synced @ map issue_id (issue # recs)"
      by simp
    with st o show ?thesis by blast
  qed
qed

lemma issues_per_project_out:
  "issues_per_project env ps synced w = Some (x, w') \<Longrightarrow>
   state w' = state w \<and>
   (\<exists>recs. out w' = out w @ map (RECORD ''issues'') recs
      \<and> (\<forall>synced'. x = Inr synced' \<longrightarrow> synced' = synced @ map issue_id recs))"
proof (induction ps arbitrary: synced w)
  case Nil
  then show ?case by auto
next
  case (Cons project rest)
  show ?case
  proof (cases "subscript project ''slug''")
    case (Inl e)
    with Cons.prems show ?thesis by auto
  next
    case (Inr slug)
    show ?thesis
    proof (cases "issues env slug (state w) w")
      case None
      with Cons.prems Inr show ?thesis by simp
    next
      case (Some y)
      obtain res w1 where y: "y = (res, w1)" by (cases y)
      from issues_frame [OF Some] y have fr: "state w1 = state w" "out w1 = out w" by simp_all
      show ?thesis
      proof (cases res)
        case (Inl e)
        with Cons.prems Inr Some y fr show ?thesis by auto
      next
        case found: (Inr found)
        show ?thesis
        proof (cases "truthy found")
          case False
          with Cons.prems Inr Some y found
          have "issues_per_project env rest synced w1 = Some (x, w')" by simp
          from Cons.IH [OF this] fr show ?thesis by simp
        next
          case True
          show ?thesis
          proof (cases "py_iter found")
            case (Inl e)
            with Cons.prems Inr Some y found True fr show ?thesis by auto
          next
            case xs: (Inr xs)
            obtain res2 w2 where e: "emit_issues xs synced w1 = (res2, w2)"
              by (cases "emit_issues xs synced w1")
            from emit_issues_out [OF e] obtain recs1 where
              st2: "state w2 = state w1" and o2: "out w2 = out w1 @ map (RECORD ''issues'') recs1"
              and s2: "\<forall>synced'. res2 = Inr synced' \<longrightarrow> synced' = synced @ map issue_id recs1"
              by auto
            show ?thesis
            proof (cases res2)
              case (Inl e2)
              with Cons.prems Inr Some y found True xs e
              have "x = Inl e2" "w' = w2" by simp_all
              with st2 o2 fr show ?thesis by auto
            next
              case s': (Inr synced1)
              with Cons.prems Inr Some y found True xs e
              have "issues_per_project env rest synced1 w2 = Some (x, w')" by simp
              from Cons.IH [OF this] obtain recs2 where
                st3: "state w' = state w2" and o3: "out w' = out w2 @ map (RECORD ''issues'') recs2"
                and s3: "\<forall>synced'. x = Inr synced' \<longrightarrow> synced' = synced1 @ map issue_id recs2"
                by auto
              from s2 s' have "synced1 = synced @ map issue_id recs1" by simp
              with s3 have "\<forall>synced'. x = Inr synced' \<longrightarrow> synced' = synced @ map issue_id (recs1 @ recs2)"
                by simp
              moreover have "out w' = out w @ map (RECORD ''issues'') (recs1 @ recs2)"
                using o3 o2 fr by simp
              moreover have "state w' = state w" using st3 st2 fr by simp
              ultimately show ?thesis by blast
            qed
          qed
        qed
      qed
    qed
  qed
qed

lemma emit_activity_issues_out:
  "emit_activity_issues ias synced w = (x, w') \<Longrightarrow>
   state w' = state w \<and>
   (\<exists>new. out w' = out w @ map (RECORD ''issues'') new
      \<and> distinct (map issue_id new) \<and> set (map issue_id new) \<inter> set synced = {})"
proof (induction ias arbitrary: synced w)
  case Nil
  then show ?case by auto
next
  case (Cons a rest)
  show ?case
  proof (cases "subscript a ''issue''")
    case (Inl e)
    with Cons.prems show ?thesis by auto
  next
    case (Inr issue)
    show ?thesis
    proof (cases "subscript issue ''id''")
      case (Inl e)
      with Cons.prems Inr show ?thesis by auto
    next
      case i: (Inr i)
      have id: "issue_id issue = i" using i by (simp add: issue_id_def)
      show ?thesis
      proof (cases "i \<in> set synced")
        case True
        with Cons.prems Inr i have "emit_activity_issues rest synced w = (x, w')" by simp
        from Cons.IH [OF this] show ?thesis .
      next
        case False
        with Cons.prems Inr i
        have "emit_activity_issues rest (synced @ [i]) (write_record ''issues'' issue w) = (x, w')"
          by simp
        from Cons.IH [OF this] obtain new where
          st: "state w' = state w" and
          o: "out w' = out w @ map (RECORD ''issues'') (issue # new)" and
          d: "distinct (map issue_id new)" and
          dj: "set (map issue_id new) \<inter> set (synced @ [i]) = {}"
          by auto
        from d dj id False have "distinct (map issue_id (issue # new))"
          and "set (map issue_id (issue # new)) \<inter> set synced = {}"
          by auto
        with st o show ?thesis by blast
      qed
    qed
  qed
qed

lemma sync_issues_activities_out:
  assumes "sync_issues_activities env t synced w = Some (x, w')"
  shows "(\<forall>e. x = Inl e \<longrightarrow> state w' = state w) \<and>
         (\<forall>u. x = Inr u \<longrightarrow>
            state w' = write_bookmark (state w) ''activity'' ''start'' (strftime env t) \<and>
            (\<exists>new. out w' = out w @ map (RECORD ''issues'') new @ [STATE (state w')]
               \<and> distinct (map issue_id new) \<and> set (map issue_id new) \<inter> set synced = {}))"
proof (cases "activity env (state w) w")
  case None
  with assms show ?thesis by (simp add: sync_issues_activities_def)
next
  case (Some y)
  obtain res w1 where y: "y = (res, w1)" by (cases y)
  from activity_frame [OF Some] y have fr: "state w1 = state w" "out w1 = out w" by simp_all
  show ?thesis
  proof (cases res)
    case (Inl e)
    with assms Some y fr show ?thesis by (auto simp: sync_issues_activities_def)
  next
    case (Inr activities)
    define step where "step =
      (if activities \<noteq> [] then
         (case issue_activities activities of
            Inl e \<Rightarrow> (Inl e, w1)
          | Inr ias \<Rightarrow> emit_activity_issues ias synced w1)
       else (Inr synced, w1))"
    obtain res2 w2 where s: "step = (res2, w2)" by (cases step)
    have inv: "state w2 = state w1 \<and>
       (\<exists>new. out w2 = out w1 @ map (RECORD ''issues'') new
          \<and> distinct (map issue_id new) \<and> set (map issue_id new) \<inter> set synced = {})"
    proof (cases "activities \<noteq> []")
      case False
      with s have "w2 = w1" by (simp add: step_def)
      then show ?thesis by auto
    next
      case True
      show ?thesis
      proof (cases "issue_activities activities")
        case (Inl e)
        with True s have "w2 = w1" by (simp add: step_def)
        then show ?thesis by auto
      next
        case (Inr ias)
        with True s have "emit_activity_issues ias synced w1 = (res2, w2)" by (simp add: step_def)
        then show ?thesis by (rule emit_activity_issues_out)
      qed
    qed
    from assms Some y Inr s
    have r: "(case res2 of
                Inl e \<Rightarrow> Some (Inl e, w2)
              | Inr sy \<Rightarrow> Some (Inr (), set_state (write_bookmark (state w2) ''activity'' ''start''
                                  (strftime env t)) w2)) = Some (x, w')"
      by (simp add: sync_issues_activities_def step_def)
    show ?thesis
    proof (cases res2)
      case (Inl e)
      with r inv fr show ?thesis by auto
    next
      case (Inr sy)
      with r have x: "x = Inr ()"
        and w': "w' = set_state (write_bookmark (state w2) ''activity'' ''start'' (strftime env t)) w2"
        by simp_all
      from inv obtain new where
        "state w2 = state w1" "out w2 = out w1 @ map (RECORD ''issues'') new"
        "distinct (map issue_id new)" "set (map issue_id new) \<inter> set synced = {}"
        by auto
      with x w' fr show ?thesis by auto
    qed
  qed
qed

lemma sync_issues_projects_out:
  "sync_issues_projects env ps w = Some (x, w') \<Longrightarrow>
   state w' = state w \<and>
   (\<exists>recs. out w' = out w @ map (RECORD ''issues'') recs
      \<and> (\<forall>synced. x = Inr synced \<longrightarrow> synced = map issue_id recs))"
  unfolding sync_issues_projects_def
  by (auto split: if_splits sum.splits dest!: issues_per_project_out)

lemma sync_issues_success:
  assumes "sync_issues env ps schema w = Some (Inr u, w')"
  shows "\<exists>recs new s1.
           s1 = write_bookmark (state w) ''issues'' ''start'' (strftime env (clock w)) \<and>
           state w' = write_bookmark s1 ''activity'' ''start'' (strftime env (clock w)) \<and>
           out w' = out w @ SCHEMA ''issues'' schema [''id''] # map (RECORD ''issues'') recs
                      @ STATE s1 # map (RECORD ''issues'') new @ [STATE (state w')] \<and>
           distinct (map issue_id new) \<and>
           set (map issue_id new) \<inter> set (map issue_id recs) = {}"
proof -
  let ?w1 = "write_schema ''issues'' schema [''id''] w"
  let ?t = "strftime env (clock w)"
  from assms obtain synced w2 where
    p: "sync_issues_projects env ps ?w1 = Some (Inr synced, w2)" and
    a: "sync_issues_activities env (clock w) synced
          (set_state (write_bookmark (state w2) ''issues'' ''start'' ?t) w2) = Some (Inr u, w')"
    by (auto simp: sync_issues_def Let_def split: option.splits sum.splits prod.splits)
  from sync_issues_projects_out [OF p] obtain recs where
    st2: "state w2 = state w" and
    o2: "out w2 = out w @ SCHEMA ''issues'' schema [''id''] # map (RECORD ''issues'') recs" and
    sy: "synced = map issue_id recs"
    by auto
  from sync_issues_activities_out [OF a] obtain new where
    st': "state w' = write_bookmark (write_bookmark (state w2) ''issues'' ''start'' ?t)
                       ''activity'' ''start'' ?t" and
    o': "out w' = (out w2 @ [STATE (write_bookmark (state w2) ''issues'' ''start'' ?t)])
                    @ map (RECORD ''issues'') new @ [STATE (state w')]" and
    d: "distinct (map issue_id new)" "set (map issue_id new) \<inter> set synced = {}"
    by auto
  let ?s1 = "write_bookmark (state w) ''issues'' ''start'' ?t"
  have "state w' = write_bookmark ?s1 ''activity'' ''start'' ?t"
    using st' st2 by simp
  moreover have "out w' = out w @ SCHEMA ''issues'' schema [''id''] # map (RECORD ''issues'') recs
                      @ STATE ?s1 # map (RECORD ''issues'') new @ [STATE (state w')]"
    using o' o2 st2 by simp
  moreover have "set (map issue_id new) \<inter> set (map issue_id recs) = {}"
    using d(2) sy by simp
  ultimately show ?thesis using d(1) by blast
qed

lemma sync_issues_failure:
  assumes "sync_issues env ps schema w = Some (Inl e, w')"
  shows "state w' = state w \<or>
         state w' = write_bookmark (state w) ''issues'' ''start'' (strftime env (clock w))"
proof -
  let ?w1 = "write_schema ''issues'' schema [''id''] w"
  let ?t = "strftime env (clock w)"
  obtain y where p: "sync_issues_projects env ps ?w1 = Some y"
    using assms by (auto simp: sync_issues_def Let_def split: option.splits)
  obtain res w2 where y: "y = (res, w2)" by (cases y)
  from sync_issues_projects_out [OF p [unfolded y]] have st2: "state w2 = state w" by simp
  show ?thesis
  proof (cases res)
    case (Inl e2)
    with assms p y have "w' = w2" by (simp add: sync_issues_def Let_def)
    with st2 show ?thesis by simp
  next
    case (Inr synced)
    with assms p y have
      "sync_issues_activities env (clock w) synced
          (set_state (write_bookmark (state w2) ''issues'' ''start'' ?t) w2) = Some (Inl e, w')"
      by (simp add: sync_issues_def Let_def)
    from sync_issues_activities_out [OF this] st2 show ?thesis by simp
  qed
qed

lemma events_per_project_out:
  "events_per_project env ps w = Some (x, w') \<Longrightarrow>
   state w' = state w \<and> (\<exists>recs. out w' = out w @ map (RECORD ''events'') recs)"
proof (induction ps arbitrary: w)
  case Nil
  then show ?case by auto
next
  case (Cons project rest)
  show ?case
  proof (cases "subscript project ''id''")
    case (Inl e)
    with Cons.prems show ?thesis by auto
  next
    case (Inr pid)
    show ?thesis
    proof (cases "events env pid (state w) w")
      case None
      with Cons.prems Inr show ?thesis by simp
    next
      case (Some y)
      obtain found w1 where y: "y = (found, w1)" by (cases y)
      from events_frame [OF Some] y have fr: "state w1 = state w" "out w1 = out w" by simp_all
      consider (skip) "events_per_project env rest w1 = Some (x, w')"
        | (fail) "w' = w1"
        | (emit) xs where "events_per_project env rest (emit_records ''events'' xs w1) = Some (x, w')"
        using Cons.prems Inr Some y
        by (auto split: option.splits sum.splits if_splits)
      then show ?thesis
      proof cases
        case skip
        from Cons.IH [OF this] fr show ?thesis by simp
      next
        case fail
        with fr show ?thesis by auto
      next
        case emit
        from Cons.IH [OF this] obtain recs where
          "state w' = state w1" "out w' = out w1 @ map (RECORD ''events'') (xs @ recs)"
          by auto
        with fr have "state w' = state w" "out w' = out w @ map (RECORD ''events'') (xs @ recs)"
          by simp_all
        then show ?thesis by blast
      qed
    qed
  qed
qed

lemma sync_events_success:
  assumes "sync_events env ps schema w = Some (Inr u, w')" and "truthy ps"
  shows "state w' = write_bookmark (state w) ''events'' ''start'' (strftime env (clock w)) \<and>
         (\<exists>recs. out w' = out w @ SCHEMA ''events'' schema [''eventID'']
                     # map (RECORD ''events'') recs @ [STATE (state w')])"
proof -
  let ?w1 = "write_schema ''events'' schema [''eventID''] w"
  from assms obtain xs u2 w2 where
    "events_per_project env xs ?w1 = Some (Inr u2, w2)" and
    w': "w' = set_state (write_bookmark (state w2) ''events'' ''start'' (strftime env (clock w))) w2"
    by (auto simp: sync_events_def Let_def split: option.splits sum.splits prod.splits)
  from events_per_project_out [OF this(1)] obtain recs where
    "state w2 = state w" "out w2 = out w @ SCHEMA ''events'' schema [''eventID''] # map (RECORD ''events'') recs"
    by auto
  with w' show ?thesis by auto
qed

lemma sync_events_failure:
  assumes "sync_events env ps schema w = Some (Inl e, w')"
  shows "state w' = state w"
  using assms
  by (auto simp: sync_events_def Let_def split: option.splits sum.splits prod.splits if_splits
      dest!: events_per_project_out)

lemmas client_simps =
  collect_def client_get_def session_get_def raise_for_status_def response_json_def
  more_results_def fetch_next_def next_url_def paginate.simps

lemmas scenario_simps =
  test_env_def page_def next_link_def start_world_def team_def act_def issue_def
  project_def event_def

lemmas sync_simps =
  sync_issues_def sync_issues_projects_def sync_issues_activities_def sync_events_def
  sync_teams_def issues_def issues_query_def teams_def events_def events_body_def
  events_query_def activity_def filter_activities_def fetch_next_activities_def
  activity_loop.simps get_bookmark_def write_bookmark_def write_schema_def write_record_def
  set_state_def

subsection \<open>The messages of an issues sync, whatever its outcome\<close>

lemma sync_issues_activities_trace:
  assumes "sync_issues_activities env t synced w = Some (x, w')"
  shows "\<exists>new. out w' = out w @ map (RECORD ''issues'') new
                    @ (case x of Inl e \<Rightarrow> [] | Inr u \<Rightarrow> [STATE (state w')])
           \<and> distinct (map issue_id new) \<and> set (map issue_id new) \<inter> set synced = {}"
proof (cases "activity env (state w) w")
  case None
  with assms show ?thesis by (simp add: sync_issues_activities_def)
next
  case (Some y)
  obtain res w1 where y: "y = (res, w1)" by (cases y)
  from activity_frame [OF Some] y have fr: "state w1 = state w" "out w1 = out w" by simp_all
  show ?thesis
  proof (cases res)
    case (Inl e)
    with assms Some y have "x = Inl e" "w' = w1" by (simp_all add: sync_issues_activities_def)
    with fr have "out w' = out w @ map (RECORD ''issues'') []
                    @ (case x of Inl e \<Rightarrow> [] | Inr u \<Rightarrow> [STATE (state w')])"
      by simp
    then show ?thesis by (intro exI [of _ "[]"]) simp
  next
    case (Inr activities)
    define step where "step =
      (if activities \<noteq> [] then
         (case issue_activities activities of
            Inl e \<Rightarrow> (Inl e, w1)
          | Inr ias \<Rightarrow> emit_activity_issues ias synced w1)
       else (Inr synced, w1))"
    obtain res2 w2 where s: "step = (res2, w2)" by (cases step)
    have inv: "\<exists>new. out w2 = out w1 @ map (RECORD ''issues'') new
          \<and> distinct (map issue_id new) \<and> set (map issue_id new) \<inter> set synced = {}"
    proof (cases "activities \<noteq> []")
      case False
      with s have "w2 = w1" by (simp add: step_def)
      then show ?thesis by (intro exI [of _ "[]"]) simp
    next
      case True
      show ?thesis
      proof (cases "issue_activities activities")
        case (Inl e)
        with True s have "w2 = w1" by (simp add: step_def)
        then show ?thesis by (intro exI [of _ "[]"]) simp
      next
        case (Inr ias)
        with True s have "emit_activity_issues ias synced w1 = (res2, w2)" by (simp add: step_def)
        from emit_activity_issues_out [OF this] show ?thesis by simp
      qed
    qed
    then obtain new where
      o2: "out w2 = out w1 @ map (RECORD ''issues'') new" and
      d: "distinct (map issue_id new)" "set (map issue_id new) \<inter> set synced = {}"
      by auto
    from assms Some y Inr s
    have r: "(case res2 of
                Inl e \<Rightarrow> Some (Inl e, w2)
              | Inr sy \<Rightarrow> Some (Inr (), set_state (write_bookmark (state w2) ''activity'' ''start''
                                  (strftime env t)) w2)) = Some (x, w')"
      by (simp add: sync_issues_activities_def step_def)
    have "out w' = out w @ map (RECORD ''issues'') new
                    @ (case x of Inl e \<Rightarrow> [] | Inr u \<Rightarrow> [STATE (state w')])"
    proof (cases res2)
      case (Inl e)
      with r have "x = Inl e" "w' = w2" by simp_all
      with o2 fr show ?thesis by simp
    next
      case (Inr sy)
      with r have "x = Inr ()"
        "w' = set_state (write_bookmark (state w2) ''activity'' ''start'' (strftime env t)) w2"
        by simp_all
      with o2 fr show ?thesis by simp
    qed
    with d show ?thesis by blast
  qed
qed

lemma sync_issues_trace:
  assumes "sync_issues env ps schema w = Some (x, w')"
  shows "\<exists>recs new.
           (out w' = out w @ SCHEMA ''issues'' schema [''id''] # map (RECORD ''issues'') recs
              \<and> new = []
            \<or> out w' = out w @ SCHEMA ''issues'' schema [''id''] # map (RECORD ''issues'') recs
                 @ STATE (write_bookmark (state w) ''issues'' ''start'' (strftime env (clock w)))
                 # map (RECORD ''issues'') new
                 @ (case x of Inl e \<Rightarrow> [] | Inr u \<Rightarrow> [STATE (state w')]))
           \<and> distinct (map issue_id new)
           \<and> set (map issue_id new) \<inter> set (map issue_id recs) = {}"
proof -
  let ?w1 = "write_schema ''issues'' schema [''id''] w"
  let ?t = "strftime env (clock w)"
  obtain y where p: "sync_issues_projects env ps ?w1 = Some y"
    using assms by (auto simp: sync_issues_def Let_def split: option.splits)
  obtain res w2 where y: "y = (res, w2)" by (cases y)
  from sync_issues_projects_out [OF p [unfolded y]] obtain recs where
    st2: "state w2 = state w" and
    o2: "out w2 = out w @ SCHEMA ''issues'' schema [''id''] # map (RECORD ''issues'') recs" and
    sy: "\<forall>synced. res = Inr synced \<longrightarrow> synced = map issue_id recs"
    by auto
  show ?thesis
  proof (cases res)
    case (Inl e)
    with assms p y have "w' = w2" by (simp add: sync_issues_def Let_def)
    with o2 have "out w' = out w @ SCHEMA ''issues'' schema [''id''] # map (RECORD ''issues'') recs
                    \<and> [] = ([] :: json list)"
      by simp
    then show ?thesis by (intro exI [of _ recs] exI [of _ "[]"]) simp
  next
    case (Inr synced)
    with assms p y have a:
      "sync_issues_activities env (clock w) synced
          (set_state (write_bookmark (state w2) ''issues'' ''start'' ?t) w2) = Some (x, w')"
      by (simp add: sync_issues_def Let_def)
    from sync_issues_activities_trace [OF a] obtain new where
      o': "out w' = (out w2 @ [STATE (write_bookmark (state w2) ''issues'' ''start'' ?t)])
                      @ map (RECORD ''issues'') new
                      @ (case x of Inl e \<Rightarrow> [] | Inr u \<Rightarrow> [STATE (state w')])" and
      d: "distinct (map issue_id new)" "set (map issue_id new) \<inter> set synced = {}"
      by auto
    from sy Inr have s: "synced = map issue_id recs" by simp
    have "out w' = out w @ SCHEMA ''issues'' schema [''id''] # map (RECORD ''issues'') recs
                 @ STATE (write_bookmark (state w) ''issues'' ''start'' ?t)
                 # map (RECORD ''issues'') new
                 @ (case x of Inl e \<Rightarrow> [] | Inr u \<Rightarrow> [STATE (state w')])"
      using o' o2 st2 by simp
    moreover have "set (map issue_id new) \<inter> set (map issue_id recs) = {}"
      using d(2) s by simp
    ultimately show ?thesis using d(1) by blast
  qed
qed

subsection \<open>The events loop, and the streams without a bookmark\<close>

lemma events_per_project_append:
  "events_per_project env (xs @ ys) w =
     (case events_per_project env xs w of
        None \<Rightarrow> None
      | Some (Inl e, w') \<Rightarrow> Some (Inl e, w')
      | Some (Inr u, w') \<Rightarrow> events_per_project env ys w')"
proof (induction xs arbitrary: w)
  case Nil
  show ?case by simp
next
  case (Cons p xs)
  show ?case
    by (simp add: Cons.IH split: sum.splits option.splits prod.splits)
qed

lemma events_failure_skips:
  assumes "subscript p ''id'' = Inr pid"
      and "events_body env pid (state w) w = Some (Inl e, w1)"
  shows "events_per_project env (p # rest) w = events_per_project env rest w1"
  using assms by (simp add: events_def)

lemma sync_events_out:
  assumes "sync_events env ps schema w = Some (Inr u, w')"
  shows "\<exists>recs. out w' = out w @ SCHEMA ''events'' schema [''eventID'']
                     # map (RECORD ''events'') recs @ (if truthy ps then [STATE (state w')] else [])"
proof (cases "truthy ps")
  case True
  from sync_events_success [OF assms True] show ?thesis using True by auto
next
  case False
  with assms have "w' = write_schema ''events'' schema [''eventID''] w"
    by (simp add: sync_events_def Let_def)
  with False have "out w' = out w @ SCHEMA ''events'' schema [''eventID'']
                     # map (RECORD ''events'') [] @ (if truthy ps then [STATE (state w')] else [])"
    by simp
  then show ?thesis by blast
qed

lemma sync_teams_state: "sync_teams env schema w = Some (x, w') \<Longrightarrow> state w' = state w"
  by (auto simp: sync_teams_def Let_def split: option.splits sum.splits prod.splits if_splits
      dest!: teams_frame)

lemma sync_users_state: "state (snd (sync_users env schema w)) = state w"
  by (auto simp: sync_users_def users_def Let_def client_get_def session_get_def
      split: sum.splits prod.splits)

lemma sync_projects_state: "state (snd (sync_projects ps schema w)) = state w"
  by (auto simp: sync_projects_def Let_def split: sum.splits)

subsection \<open>Concrete runs\<close>

lemma run_issues_ok:
  "sync_issues (test_env sync_server) (JArr [project ''1'' ''a'']) JNull
     (start_world [((''activity'', ''start''), ''tII'')])
   = Some (Inr (),
       \<lparr>clock = 9,
        requests = [''h/projects/rise-people/a/issues/'', ''h/organizations/rise-people/activity/''],
        state = [((''activity'', ''start''), ''tIIIIIII''), ((''issues'', ''start''), ''tIIIIIII'')],
        out = [SCHEMA ''issues'' JNull [''id''],
               RECORD ''issues'' (issue ''1''),
               STATE [((''activity'', ''start''), ''tII''), ((''issues'', ''start''), ''tIIIIIII'')],
               RECORD ''issues'' (issue ''2''),
               STATE [((''activity'', ''start''), ''tIIIIIII''),
                      ((''issues'', ''start''), ''tIIIIIII'')]]\<rparr>)"
  by (simp add: sync_simps client_simps scenario_simps sync_server_def eval_nat_numeral)

lemma run_issues_first:
  "sync_issues (test_env sync_server) (JArr [project ''1'' ''a'']) JNull (start_world [])
   = Some (Inl TypeError,
       \<lparr>clock = 8, requests = [''h/projects/rise-people/a/issues/''],
        state = [((''issues'', ''start''), ''tIIIIIII'')],
        out = [SCHEMA ''issues'' JNull [''id''],
               RECORD ''issues'' (issue ''1''),
               STATE [((''issues'', ''start''), ''tIIIIIII'')]]\<rparr>)"
  by (simp add: sync_simps client_simps scenario_simps sync_server_def eval_nat_numeral)

lemma run_issues_duplicate:
  "sync_issues (test_env duplicate_server) (JArr [project ''1'' ''a'']) JNull
     (start_world [((''activity'', ''start''), ''tII'')])
   = Some (Inr (),
       \<lparr>clock = 9,
        requests = [''h/projects/rise-people/a/issues/'', ''h/organizations/rise-people/activity/''],
        state = [((''activity'', ''start''), ''tIIIIIII''), ((''issues'', ''start''), ''tIIIIIII'')],
        out = [SCHEMA ''issues'' JNull [''id''],
               RECORD ''issues'' (issue ''1''),
               RECORD ''issues'' (issue ''1''),
               STATE [((''activity'', ''start''), ''tII''), ((''issues'', ''start''), ''tIIIIIII'')],
               STATE [((''activity'', ''start''), ''tIIIIIII''),
                      ((''issues'', ''start''), ''tIIIIIII'')]]\<rparr>)"
  by (simp add: sync_simps client_simps scenario_simps duplicate_server_def eval_nat_numeral)

lemma run_issues_unreachable:
  "sync_issues (test_env events_server) (JArr [project ''1'' ''a'']) JNull (start_world [])
   = Some (Inl RequestException,
       \<lparr>clock = 8, requests = [''h/projects/rise-people/a/issues/''], state = [],
        out = [SCHEMA ''issues'' JNull [''id'']]\<rparr>)"
  by (simp add: sync_simps client_simps scenario_simps events_server_def eval_nat_numeral)

lemma run_events_ok:
  "sync_events (test_env events_server)
     (JArr [project ''1'' ''a'', project ''2'' ''b'', project ''3'' ''c'']) JNull (start_world [])
   = Some (Inr (),
       \<lparr>clock = 10,
        requests = [''h//organizations/split-software/events/?project=1'',
                    ''h//organizations/split-software/events/?project=2'',
                    ''h//organizations/split-software/events/?project=3''],
        state = [((''events'', ''start''), ''tIIIIIII'')],
        out = [SCHEMA ''events'' JNull [''eventID''],
               RECORD ''events'' (event ''e1''),
               RECORD ''events'' (event ''e3''),
               STATE [((''events'', ''start''), ''tIIIIIII'')]]\<rparr>)"
  by (simp add: sync_simps client_simps scenario_simps events_server_def eval_nat_numeral)

lemma run_events_malformed_project:
  "sync_events (test_env events_server) (JArr [JNull]) JNull (start_world [])
   = Some (Inl TypeError,
       \<lparr>clock = 7, requests = [], state = [], out = [SCHEMA ''events'' JNull [''eventID'']]\<rparr>)"
  by (simp add: sync_simps client_simps scenario_simps events_server_def eval_nat_numeral)

lemma run_teams_error_page:
  "sync_teams (test_env teams_error_server) JNull (start_world [])
   = Some (Inr (),
       \<lparr>clock = 9, requests = [''h/organizations/rise-people/teams/'', ''p2''], state = [],
        out = [SCHEMA ''teams'' JNull [''id''],
               RECORD ''teams'' (team ''1''),
               RECORD ''teams'' (JStr ''detail'')]\<rparr>)"
  by (simp add: sync_simps client_simps scenario_simps teams_error_server_def eval_nat_numeral)

lemma run_issues_phase_unreachable:
  "sync_issues_projects (test_env events_server) (JArr [project ''1'' ''a''])
     (write_schema ''issues'' JNull [''id''] (start_world []))
   = Some (Inl RequestException,
       \<lparr>clock = 8, requests = [''h/projects/rise-people/a/issues/''], state = [],
        out = [SCHEMA ''issues'' JNull [''id'']]\<rparr>)"
  by (simp add: sync_simps client_simps scenario_simps events_server_def eval_nat_numeral)

lemma run_events_number:
  "sync_events (test_env number_events_server) (JArr [project ''1'' ''a'']) JNull (start_world [])
   = Some (Inl TypeError,
       \<lparr>clock = 8, requests = [''h//organizations/split-software/events/?project=1''],
        state = [], out = [SCHEMA ''events'' JNull [''eventID'']]\<rparr>)"
  by (simp add: sync_simps client_simps scenario_simps number_events_server_def eval_nat_numeral)

lemma run_fetch_number:
  "events (test_env number_events_server) (JStr ''1'') [] (start_world [])
   = Some (Some (JNum 5),
       \<lparr>clock = 8, requests = [''h//organizations/split-software/events/?project=1''],
        state = [], out = []\<rparr>)"
  by (simp add: sync_simps client_simps scenario_simps number_events_server_def eval_nat_numeral)

subsection \<open>The bookmark that is written\<close>

text \<open>
  When \<^verbatim>\<open>sync_issues\<close> succeeds, and when \<^verbatim>\<open>sync_events\<close> succeeds on a project list that
  is not empty, the bookmarks of the final state hold the formatted clock reading taken
  at the start of the pass, and the final state is the last message written. The runs
  \<open>run_issues_ok\<close> and \<open>run_events_ok\<close> start at instant 7 and end at instants 9
  and 10.
\<close>

lemma bookmark_written_is_extraction_start:
  "(sync_issues env ps schema w = Some (Inr u, w') \<longrightarrow>
      get_bookmark (state w') ''issues'' ''start'' = Some (strftime env (clock w)) \<and>
      get_bookmark (state w') ''activity'' ''start'' = Some (strftime env (clock w)) \<and>
      last (out w') = STATE (state w'))
   \<and> (sync_events env ps schema w = Some (Inr u, w') \<and> truthy ps \<longrightarrow>
      get_bookmark (state w') ''events'' ''start'' = Some (strftime env (clock w)) \<and>
      last (out w') = STATE (state w'))"
proof (intro conjI impI)
  assume a: "sync_issues env ps schema w = Some (Inr u, w')"
  from sync_issues_success [OF a] obtain recs new s1 where
    s: "state w' = write_bookmark (write_bookmark (state w) ''issues'' ''start''
              (strftime env (clock w))) ''activity'' ''start'' (strftime env (clock w))" and
    o: "out w' = out w @ SCHEMA ''issues'' schema [''id''] # map (RECORD ''issues'') recs
                      @ STATE s1 # map (RECORD ''issues'') new @ [STATE (state w')]"
    by auto
  from s show "get_bookmark (state w') ''issues'' ''start'' = Some (strftime env (clock w))"
    by (simp add: get_write_bookmark)
  from s show "get_bookmark (state w') ''activity'' ''start'' = Some (strftime env (clock w))"
    by (simp add: get_write_bookmark)
  have "out w' = (out w @ SCHEMA ''issues'' schema [''id''] # map (RECORD ''issues'') recs
                      @ STATE s1 # map (RECORD ''issues'') new) @ [STATE (state w')]"
    using o by simp
  then show "last (out w') = STATE (state w')" by (simp only: last_snoc)
next
  assume a: "sync_events env ps schema w = Some (Inr u, w') \<and> truthy ps"
  from sync_events_success [of env ps schema w u w'] a obtain recs where
    s: "state w' = write_bookmark (state w) ''events'' ''start'' (strftime env (clock w))" and
    o: "out w' = out w @ SCHEMA ''events'' schema [''eventID'']
                     # map (RECORD ''events'') recs @ [STATE (state w')]"
    by auto
  from s show "get_bookmark (state w') ''events'' ''start'' = Some (strftime env (clock w))"
    by (simp add: get_write_bookmark)
  have "out w' = (out w @ SCHEMA ''events'' schema [''eventID'']
                     # map (RECORD ''events'') recs) @ [STATE (state w')]"
    using o by simp
  then show "last (out w') = STATE (state w')" by (simp only: last_snoc)
qed

lemma bookmark_written_is_extraction_start_runs:
  "get_bookmark [((''activity'', ''start''), ''tIIIIIII''), ((''issues'', ''start''), ''tIIIIIII'')]
       ''issues'' ''start'' = Some (strftime (test_env sync_server) 7)
   \<and> get_bookmark [((''activity'', ''start''), ''tIIIIIII''), ((''issues'', ''start''), ''tIIIIIII'')]
       ''activity'' ''start'' = Some (strftime (test_env sync_server) 7)
   \<and> get_bookmark [((''events'', ''start''), ''tIIIIIII'')] ''events'' ''start''
       = Some (strftime (test_env events_server) 7)
   \<and> strftime (test_env sync_server) 7 \<noteq> strftime (test_env sync_server) 9
   \<and> strftime (test_env events_server) 7 \<noteq> strftime (test_env events_server) 10"
proof -
  have t: "truthy (JArr [project ''1'' ''a'', project ''2'' ''b'', project ''3'' ''c''])"
    by simp
  from bookmark_written_is_extraction_start [THEN conjunct1, rule_format, OF run_issues_ok]
       bookmark_written_is_extraction_start [THEN conjunct2, rule_format, OF conjI [OF run_events_ok t]]
  show ?thesis
    by (simp add: start_world_def test_env_def eval_nat_numeral)
qed

section \<open>The claims\<close>

subsection \<open>C1: the pagination loop\<close>

text \<open>
  C1 as stated fails in two places. \<^verbatim>\<open>activity\<close> filters every page and leaves its loop
  at the first page that filters to empty, so it neither fetches every page nor returns
  all records; and a page whose \<^verbatim>\<open>Link\<close> header is not empty but has no \<^verbatim>\<open>next\<close>
  relation makes the loop condition raise \<^verbatim>\<open>KeyError\<close> instead of ending the loop.

  C1, amended: when the first request succeeds and the server links a finite chain of
  pages, each carrying a list, whose last page has no link relations at all or a
  \<^verbatim>\<open>next\<close> relation whose \<^verbatim>\<open>results\<close> attribute is present and not \<^verbatim>\<open>true\<close> (a next URL may
  be present), every list fetch terminates. \<^verbatim>\<open>issues\<close>, \<^verbatim>\<open>events\<close> and \<^verbatim>\<open>teams\<close> request
  the page URLs once each in chain order and return the records of all pages
  concatenated in that order. \<^verbatim>\<open>activity\<close>, on pages that it can filter, requests the
  pages in chain order, each once, up to and including the first page that holds no
  entry dated at or after the bookmark (all of them when there is none), and returns in
  that order the entries dated at or after the bookmark of the pages before that one.
\<close>

theorem pagination_follows_chain:
  assumes "serve env (base_url env @ path) = Inr r0"
      and "\<not> (400 \<le> status_code r0 \<and> status_code r0 < 600)"
      and "page_chain env r0 rest"
      and "list_all has_records (r0 # map snd rest)"
  shows "collect env (client_get env path w) =
           Some (Inr (JArr (concat (map records (r0 # map snd rest)))),
                 after_requests env ((base_url env @ path) # map fst rest) w)
         \<and> requests (after_requests env ((base_url env @ path) # map fst rest) w)
             = requests w @ (base_url env @ path) # map fst rest
         \<and> teams env st w = collect env (client_get env ''organizations/rise-people/teams/'' w)
         \<and> issues env project_id st w
             = collect env (client_get env (issues_query env project_id st) w)
         \<and> events_body env project_id st w
             = collect env (client_get env (events_query env project_id st w) w)
         \<and> (path = ''organizations/rise-people/activity/''
              \<and> get_bookmark st ''activity'' ''start'' = Some b \<and> parse env b = Some bookmark
              \<and> list_all (filters env bookmark) (r0 # map snd rest)
            \<longrightarrow> activity env st w =
                  Some (Inr (concat (map (kept env bookmark)
                               (takeWhile (\<lambda>r. kept env bookmark r \<noteq> []) (r0 # map snd rest)))),
                        after_requests env
                          (take (Suc (length (takeWhile (\<lambda>r. kept env bookmark r \<noteq> [])
                                                 (r0 # map snd rest))))
                             ((base_url env @ path) # map fst rest)) w))"
proof -
  have "path = ''organizations/rise-people/activity/''
              \<and> get_bookmark st ''activity'' ''start'' = Some b \<and> parse env b = Some bookmark
              \<and> list_all (filters env bookmark) (r0 # map snd rest)
            \<longrightarrow> activity env st w =
                  Some (Inr (concat (map (kept env bookmark)
                               (takeWhile (\<lambda>r. kept env bookmark r \<noteq> []) (r0 # map snd rest)))),
                        after_requests env
                          (take (Suc (length (takeWhile (\<lambda>r. kept env bookmark r \<noteq> [])
                                                 (r0 # map snd rest))))
                             ((base_url env @ path) # map fst rest)) w)"
  proof
    assume a: "path = ''organizations/rise-people/activity/''
              \<and> get_bookmark st ''activity'' ''start'' = Some b \<and> parse env b = Some bookmark
              \<and> list_all (filters env bookmark) (r0 # map snd rest)"
    then have p: "path = ''organizations/rise-people/activity/''" by simp
    from a assms(1,2,3) show "activity env st w =
                  Some (Inr (concat (map (kept env bookmark)
                               (takeWhile (\<lambda>r. kept env bookmark r \<noteq> []) (r0 # map snd rest)))),
                        after_requests env
                          (take (Suc (length (takeWhile (\<lambda>r. kept env bookmark r \<noteq> [])
                                                 (r0 # map snd rest))))
                             ((base_url env @ path) # map fst rest)) w)"
      unfolding p by (intro activity_chain [where b = b]) simp_all
  qed
  with collect_chain [OF assms] show ?thesis
    by (simp add: after_requests_def teams_def issues_def events_body_def)
qed

text \<open>
  The two pages of \<open>teams_server\<close>: two requests, both records, and the loop ends at
  the page marked \<^verbatim>\<open>results="false"\<close> although it names a next URL. The three pages of
  \<open>activity_server\<close> with the bookmark at instant 2: the second page holds no entry
  at or after it, so two requests are made and the first page's entry is returned.
\<close>

theorem pagination_follows_chain_witness:
  "teams (test_env teams_server) [] (start_world [])
     = Some (Inr (JArr [team ''1'', team ''2'']),
             \<lparr>clock = 9, requests = [''h/organizations/rise-people/teams/'', ''p2''],
              state = [], out = []\<rparr>)
   \<and> activity (test_env activity_server) [((''activity'', ''start''), ''tII'')] (start_world [])
     = Some (Inr [act ''tIII'' ''1''],
             \<lparr>clock = 9, requests = [''h/organizations/rise-people/activity/'', ''a2''],
              state = [], out = []\<rparr>)"
proof -
  let ?env = "test_env teams_server"
  let ?r0 = "page 200 (JArr [team ''1'']) (next_link ''p2'' ''true'')"
  let ?r1 = "page 200 (JArr [team ''2'']) (next_link ''p3'' ''false'')"
  have 1: "serve ?env (base_url ?env @ ''organizations/rise-people/teams/'') = Inr ?r0"
    by (simp add: test_env_def teams_server_def)
  have 2: "\<not> (400 \<le> status_code ?r0 \<and> status_code ?r0 < 600)"
    by (simp add: page_def)
  have 3: "page_chain ?env ?r0 [(''p2'', ?r1)]"
    by (simp add: test_env_def teams_server_def page_def next_link_def last_page_def)
  have 4: "list_all has_records (?r0 # map snd [(''p2'', ?r1)])"
    by (simp add: has_records_def page_def)
  have teams: "teams ?env [] (start_world [])
     = Some (Inr (JArr [team ''1'', team ''2'']),
             \<lparr>clock = 9, requests = [''h/organizations/rise-people/teams/'', ''p2''],
              state = [], out = []\<rparr>)"
    using pagination_follows_chain [OF 1 2 3 4, of "start_world []" "[]"]
    by (simp add: records_def page_def after_requests_def test_env_def start_world_def)
  let ?aenv = "test_env activity_server"
  let ?st = "[((''activity'', ''start''), ''tII'')]"
  let ?a0 = "page 200 (JArr [act ''tIII'' ''1'']) (next_link ''a2'' ''true'')"
  let ?a1 = "page 200 (JArr [act ''tI'' ''2'']) (next_link ''a3'' ''true'')"
  let ?a2 = "page 200 (JArr [act ''tIIIIII'' ''3'']) []"
  let ?rest = "[(''a2'', ?a1), (''a3'', ?a2)]"
  have 5: "serve ?aenv (base_url ?aenv @ ''organizations/rise-people/activity/'') = Inr ?a0"
    by (simp add: test_env_def activity_server_def)
  have 6: "\<not> (400 \<le> status_code ?a0 \<and> status_code ?a0 < 600)"
    by (simp add: page_def)
  have 7: "page_chain ?aenv ?a0 ?rest"
    by (simp add: test_env_def activity_server_def page_def next_link_def last_page_def)
  have 8: "list_all has_records (?a0 # map snd ?rest)"
    by (simp add: has_records_def page_def)
  have k0: "kept ?aenv 2 ?a0 = [act ''tIII'' ''1'']"
    and k1: "kept ?aenv 2 ?a1 = []"
    and k2: "kept ?aenv 2 ?a2 = [act ''tIIIIII'' ''3'']"
    by (simp_all add: kept_def filter_activities_def scenario_simps)
  have 9: "''organizations/rise-people/activity/'' = ''organizations/rise-people/activity/''
              \<and> get_bookmark ?st ''activity'' ''start'' = Some ''tII'' \<and> parse ?aenv ''tII'' = Some 2
              \<and> list_all (filters ?aenv 2) (?a0 # map snd ?rest)"
    by (simp add: get_bookmark_def filters_def filter_activities_def scenario_simps)
  have bu: "base_url ?aenv = ''h/''" by (simp add: test_env_def)
  have "activity ?aenv ?st (start_world [])
     = Some (Inr [act ''tIII'' ''1''],
             after_requests ?aenv [''h/organizations/rise-people/activity/'', ''a2'']
               (start_world []))"
    using pagination_follows_chain
             [OF 5 6 7 8, where w = "start_world []" and st = ?st and b = "''tII''"
                and bookmark = 2,
              THEN conjunct2, THEN conjunct2, THEN conjunct2, THEN conjunct2, THEN conjunct2,
              THEN mp, OF 9]
    by (simp add: k0 k1 k2 bu)
  with teams show ?thesis
    by (simp add: after_requests_def test_env_def start_world_def)
qed

text \<open>
  Against C1 as stated: a single page of teams with only a \<^verbatim>\<open>previous\<close> relation ends in
  \<^verbatim>\<open>KeyError\<close>, not in the page's records; and \<^verbatim>\<open>activity\<close> with the bookmark at instant 2
  returns the first of three pages only, after two requests.
\<close>

theorem pagination_counterexample:
  "teams (test_env previous_only_server) [] (start_world [])
     = Some (Inl (KeyError ''next''),
             \<lparr>clock = 8, requests = [''h/organizations/rise-people/teams/''], state = [], out = []\<rparr>)
   \<and> activity (test_env activity_server) [((''activity'', ''start''), ''tII'')] (start_world [])
     = Some (Inr [act ''tIII'' ''1''],
             \<lparr>clock = 9, requests = [''h/organizations/rise-people/activity/'', ''a2''],
              state = [], out = []\<rparr>)"
  by (simp add: teams_def activity_def get_bookmark_def client_simps scenario_simps
      previous_only_server_def activity_server_def filter_activities_def
      fetch_next_activities_def activity_loop.simps act_def)

subsection \<open>C8: the Authorization header\<close>

text \<open>
  C8 says the header value is exactly \<^verbatim>\<open>Bearer <token>\<close>. The code writes the literal
  \<^verbatim>\<open>" Bearer "\<close>, with a space in front: for every token the value is a space, then
  \<^verbatim>\<open>Bearer\<close>, a space and the token, and for the token \<^verbatim>\<open>abc\<close> it is not \<^verbatim>\<open>Bearer abc\<close>.
\<close>

theorem auth_header_has_leading_space:
  "map_of (headers (auth_call api_token req)) ''Authorization'' = Some ('' Bearer '' @ api_token)
   \<and> map_of (headers (auth_call ''abc'' \<lparr>headers = []\<rparr>)) ''Authorization'' \<noteq> Some ''Bearer abc''"
  by (simp add: auth_call_def update_conv')

subsection \<open>C9: the activity fetch without a bookmark\<close>

text \<open>
  C9 as stated fails where the per-project phase of \<^verbatim>\<open>sync_issues\<close> itself fails: the
  exception leaves \<^verbatim>\<open>sync_issues\<close> before the \<^verbatim>\<open>issues\<close>/\<^verbatim>\<open>start\<close> bookmark is written.

  C9, amended: when the state has no \<^verbatim>\<open>activity\<close>/\<^verbatim>\<open>start\<close> bookmark, \<^verbatim>\<open>activity\<close> raises
  \<^verbatim>\<open>TypeError\<close> from parsing \<^verbatim>\<open>None\<close> before any request is made (the world is
  unchanged), instead of an unfiltered fetch. So \<^verbatim>\<open>sync_issues\<close> never succeeds on such a
  state, and whenever its per-project phase completes it fails with that error after
  the \<^verbatim>\<open>issues\<close>/\<^verbatim>\<open>start\<close> bookmark has been written and emitted.
\<close>

theorem activity_requires_bookmark:
  "(get_bookmark st ''activity'' ''start'' = None \<longrightarrow> activity env st w = Some (Inl TypeError, w))
   \<and> (get_bookmark (state w) ''activity'' ''start'' = None
        \<and> sync_issues_projects env ps (write_schema ''issues'' schema [''id''] w)
            = Some (Inr synced, w2)
      \<longrightarrow> sync_issues env ps schema w
            = Some (Inl TypeError,
                    set_state (write_bookmark (state w2) ''issues'' ''start''
                                 (strftime env (clock w))) w2)
          \<and> get_bookmark (write_bookmark (state w2) ''issues'' ''start'' (strftime env (clock w)))
               ''issues'' ''start'' = Some (strftime env (clock w)))
   \<and> (get_bookmark (state w) ''activity'' ''start'' = None
      \<longrightarrow> sync_issues env ps schema w \<noteq> Some (Inr u, w'))"
proof (intro conjI impI)
  assume "get_bookmark st ''activity'' ''start'' = None"
  then show "activity env st w = Some (Inl TypeError, w)"
    by (simp add: activity_def)
next
  assume a: "get_bookmark (state w) ''activity'' ''start'' = None
        \<and> sync_issues_projects env ps (write_schema ''issues'' schema [''id''] w)
            = Some (Inr synced, w2)"
  let ?w3 = "set_state (write_bookmark (state w2) ''issues'' ''start'' (strftime env (clock w))) w2"
  from a have "sync_issues_projects env ps (write_schema ''issues'' schema [''id''] w)
            = Some (Inr synced, w2)" by simp
  from sync_issues_projects_out [OF this] have "state w2 = state w" by simp
  with a have "get_bookmark (state ?w3) ''activity'' ''start'' = None"
    by (simp add: get_write_bookmark)
  then have "activity env (state ?w3) ?w3 = Some (Inl TypeError, ?w3)"
    by (simp add: activity_def)
  with a show "sync_issues env ps schema w = Some (Inl TypeError, ?w3)"
    by (simp add: sync_issues_def sync_issues_activities_def Let_def)
  show "get_bookmark (write_bookmark (state w2) ''issues'' ''start'' (strftime env (clock w)))
               ''issues'' ''start'' = Some (strftime env (clock w))"
    by (simp add: get_write_bookmark)
next
  assume a: "get_bookmark (state w) ''activity'' ''start'' = None"
  show "sync_issues env ps schema w \<noteq> Some (Inr u, w')"
  proof
    assume "sync_issues env ps schema w = Some (Inr u, w')"
    from sync_issues_success [OF this]
    have "get_bookmark (state w') ''activity'' ''start'' = Some (strftime env (clock w))"
      by (auto simp: get_write_bookmark)
    obtain synced w2 where
      p: "sync_issues_projects env ps (write_schema ''issues'' schema [''id''] w) = Some (Inr synced, w2)"
      using \<open>sync_issues env ps schema w = Some (Inr u, w')\<close>
      by (auto simp: sync_issues_def Let_def split: option.splits sum.splits prod.splits)
    let ?w3 = "set_state (write_bookmark (state w2) ''issues'' ''start'' (strftime env (clock w))) w2"
    from p sync_issues_projects_out [OF p] a
    have "get_bookmark (state ?w3) ''activity'' ''start'' = None"
      by (simp add: get_write_bookmark)
    then have "activity env (state ?w3) ?w3 = Some (Inl TypeError, ?w3)"
      by (simp add: activity_def)
    with p have "sync_issues env ps schema w = Some (Inl TypeError, ?w3)"
      by (simp add: sync_issues_def sync_issues_activities_def Let_def)
    with \<open>sync_issues env ps schema w = Some (Inr u, w')\<close> show False by simp
  qed
qed

text \<open>A first run, with the empty state, against \<open>sync_server\<close>.\<close>

theorem activity_requires_bookmark_witness:
  "activity (test_env sync_server) [] (start_world []) = Some (Inl TypeError, start_world [])
   \<and> sync_issues (test_env sync_server) (JArr [project ''1'' ''a'']) JNull (start_world [])
     = Some (Inl TypeError,
         \<lparr>clock = 8, requests = [''h/projects/rise-people/a/issues/''],
          state = [((''issues'', ''start''), ''tIIIIIII'')],
          out = [SCHEMA ''issues'' JNull [''id''],
                 RECORD ''issues'' (issue ''1''),
                 STATE [((''issues'', ''start''), ''tIIIIIII'')]]\<rparr>)
   \<and> sync_issues (test_env sync_server) (JArr [project ''1'' ''a'']) JNull (start_world [])
       \<noteq> Some (Inr (), start_world [])"
proof -
  let ?env = "test_env sync_server"
  let ?ps = "JArr [project ''1'' ''a'']"
  let ?w2 = "\<lparr>clock = 8, requests = [''h/projects/rise-people/a/issues/''], state = [],
              out = [SCHEMA ''issues'' JNull [''id''], RECORD ''issues'' (issue ''1'')]\<rparr>"
  have none: "get_bookmark [] ''activity'' ''start'' = None"
    by (simp add: get_bookmark_def)
  have none': "get_bookmark (state (start_world [])) ''activity'' ''start'' = None"
    by (simp add: get_bookmark_def start_world_def)
  have phase: "sync_issues_projects ?env ?ps (write_schema ''issues'' JNull [''id''] (start_world []))
                 = Some (Inr [JStr ''1''], ?w2)"
    by (simp add: sync_simps client_simps scenario_simps sync_server_def)
  note t = activity_requires_bookmark
    [where st = "[]" and env = ?env and w = "start_world []" and ps = ?ps and schema = JNull
       and synced = "[JStr ''1'']" and ?w2.0 = ?w2 and u = "()" and w' = "start_world []"]
  from t none have 1: "activity ?env [] (start_world []) = Some (Inl TypeError, start_world [])"
    by blast
  from t none' phase have 2: "sync_issues ?env ?ps JNull (start_world [])
            = Some (Inl TypeError,
                    set_state (write_bookmark (state ?w2) ''issues'' ''start''
                                 (strftime ?env (clock (start_world [])))) ?w2)"
    by blast
  from t none' have 3: "sync_issues ?env ?ps JNull (start_world []) \<noteq> Some (Inr (), start_world [])"
    by blast
  from 1 2 3 show ?thesis
    by (simp add: set_state_def write_bookmark_def scenario_simps eval_nat_numeral)
qed

text \<open>
  Against C9 as stated: a first run whose issues request fails ends in that failure,
  with the state still empty and no state message written.
\<close>

theorem first_run_counterexample:
  "get_bookmark (state (start_world [])) ''activity'' ''start'' = None
   \<and> sync_issues (test_env events_server) (JArr [project ''1'' ''a'']) JNull (start_world [])
       = Some (Inl RequestException,
           \<lparr>clock = 8, requests = [''h/projects/rise-people/a/issues/''], state = [],
            out = [SCHEMA ''issues'' JNull [''id'']]\<rparr>)"
  using run_issues_unreachable by (simp add: get_bookmark_def start_world_def)

subsection \<open>C10: the activity loop ends at the first page that filters to empty\<close>

text \<open>
  C10: if the first page of activity keeps no entry at or after the bookmark,
  \<^verbatim>\<open>activity\<close> returns the empty list after that single request, whatever the page links
  to; and in the loop, when the next page keeps no entry, the loop returns what it has
  after that one request, whatever that page links to. Entries at or after the bookmark
  on later pages are therefore not returned.
\<close>

theorem activity_stops_at_empty_page:
  "(get_bookmark st ''activity'' ''start'' = Some b \<and> parse env b = Some bookmark
      \<and> serve env (base_url env @ ''organizations/rise-people/activity/'') = Inr r
      \<and> \<not> (400 \<le> status_code r \<and> status_code r < 600)
      \<and> body r = Some j \<and> filter_activities env j bookmark = Inr []
    \<longrightarrow> activity env st w
          = Some (Inr [], after_requests env [base_url env @ ''organizations/rise-people/activity/''] w))
   \<and> (map_of (links r) ''next'' = Some l \<and> map_of l ''results'' = Some ''true''
      \<and> map_of l ''url'' = Some u \<and> serve env u = Inr r'
      \<and> body r' = Some j \<and> filter_activities env j bookmark = Inr []
    \<longrightarrow> activity_loop env bookmark r activities w
          = Some (Inr activities, after_requests env [u] w))"
proof (intro conjI impI)
  assume a: "get_bookmark st ''activity'' ''start'' = Some b \<and> parse env b = Some bookmark
      \<and> serve env (base_url env @ ''organizations/rise-people/activity/'') = Inr r
      \<and> \<not> (400 \<le> status_code r \<and> status_code r < 600)
      \<and> body r = Some j \<and> filter_activities env j bookmark = Inr []"
  then show "activity env st w
          = Some (Inr [], after_requests env [base_url env @ ''organizations/rise-people/activity/''] w)"
    by (simp add: activity_def client_get_def session_get_def raise_for_status_def
        response_json_def after_requests_def)
next
  assume a: "map_of (links r) ''next'' = Some l \<and> map_of l ''results'' = Some ''true''
      \<and> map_of l ''url'' = Some u \<and> serve env u = Inr r'
      \<and> body r' = Some j \<and> filter_activities env j bookmark = Inr []"
  then have ne: "links r \<noteq> []" by auto
  with a have more: "more_results r = Inr True" by (simp add: more_results_def)
  from a have step: "fetch_next_activities env bookmark r w = (Inr (r', []), after_requests env [u] w)"
    by (simp add: fetch_next_activities_def next_url_def session_get_def response_json_def
        after_requests_def)
  show "activity_loop env bookmark r activities w = Some (Inr activities, after_requests env [u] w)"
    by (subst activity_loop.simps) (simp add: more step)
qed

text \<open>
  \<open>activity_server\<close>: with the bookmark at instant 5 the first page filters to empty
  and one request is made; with the bookmark at instant 2 the loop stops after the
  second page, which links to a third page holding an entry of instant 6.
\<close>

theorem activity_stops_at_empty_page_witness:
  "activity (test_env activity_server) [((''activity'', ''start''), ''tIIIII'')] (start_world [])
     = Some (Inr [], \<lparr>clock = 8, requests = [''h/organizations/rise-people/activity/''],
                      state = [], out = []\<rparr>)
   \<and> activity_loop (test_env activity_server) 2
        (page 200 (JArr [act ''tIII'' ''1'']) (next_link ''a2'' ''true''))
        [act ''tIII'' ''1'']
        \<lparr>clock = 8, requests = [''h/organizations/rise-people/activity/''], state = [], out = []\<rparr>
     = Some (Inr [act ''tIII'' ''1''],
             \<lparr>clock = 9, requests = [''h/organizations/rise-people/activity/'', ''a2''],
              state = [], out = []\<rparr>)
   \<and> more_results (page 200 (JArr [act ''tI'' ''2'']) (next_link ''a3'' ''true'')) = Inr True
   \<and> filter_activities (test_env activity_server) (JArr [act ''tIIIIII'' ''3'']) 2
       = Inr [act ''tIIIIII'' ''3'']"
proof -
  let ?env = "test_env activity_server"
  let ?st = "[((''activity'', ''start''), ''tIIIII'')]"
  let ?r1 = "page 200 (JArr [act ''tIII'' ''1'']) (next_link ''a2'' ''true'')"
  let ?r2 = "page 200 (JArr [act ''tI'' ''2'']) (next_link ''a3'' ''true'')"
  let ?w1 = "\<lparr>clock = 8, requests = [''h/organizations/rise-people/activity/''], state = [], out = []\<rparr>"
  have a: "get_bookmark ?st ''activity'' ''start'' = Some ''tIIIII'' \<and> parse ?env ''tIIIII'' = Some 5
      \<and> serve ?env (base_url ?env @ ''organizations/rise-people/activity/'') = Inr ?r1
      \<and> \<not> (400 \<le> status_code ?r1 \<and> status_code ?r1 < 600)
      \<and> body ?r1 = Some (JArr [act ''tIII'' ''1''])
      \<and> filter_activities ?env (JArr [act ''tIII'' ''1'']) 5 = Inr []"
    by (simp add: get_bookmark_def scenario_simps activity_server_def filter_activities_def)
  have b: "map_of (links ?r1) ''next'' = Some [(''url'', ''a2''), (''results'', ''true'')]
      \<and> map_of [(''url'', ''a2''), (''results'', ''true'')] ''results'' = Some ''true''
      \<and> map_of [(''url'', ''a2''), (''results'', ''true'')] ''url'' = Some ''a2''
      \<and> serve ?env ''a2'' = Inr ?r2
      \<and> body ?r2 = Some (JArr [act ''tI'' ''2''])
      \<and> filter_activities ?env (JArr [act ''tI'' ''2'']) 2 = Inr []"
    by (simp add: scenario_simps activity_server_def filter_activities_def)
  note t = activity_stops_at_empty_page
    [where st = ?st and b = "''tIIIII''" and env = ?env and bookmark = 5 and r = ?r1
       and j = "JArr [act ''tIII'' ''1'']" and w = "start_world []"]
  note t2 = activity_stops_at_empty_page
    [where env = ?env and bookmark = 2 and r = ?r1 and j = "JArr [act ''tI'' ''2'']"
       and l = "[(''url'', ''a2''), (''results'', ''true'')]" and u = "''a2''" and r' = ?r2
       and activities = "[act ''tIII'' ''1'']" and w = ?w1]
  from t a have 1: "activity ?env ?st (start_world [])
          = Some (Inr [], after_requests ?env [base_url ?env @ ''organizations/rise-people/activity/''] (start_world []))"
    by blast
  from t2 b have 2: "activity_loop ?env 2 ?r1 [act ''tIII'' ''1''] ?w1
          = Some (Inr [act ''tIII'' ''1''], after_requests ?env [''a2''] ?w1)"
    by blast
  have 3: "more_results ?r2 = Inr True"
    by (simp add: more_results_def scenario_simps)
  have 4: "filter_activities ?env (JArr [act ''tIIIIII'' ''3'']) 2 = Inr [act ''tIIIIII'' ''3'']"
    by (simp add: filter_activities_def scenario_simps)
  from 1 2 3 4 show ?thesis
    by (simp add: after_requests_def test_env_def start_world_def)
qed

subsection \<open>C2: the bookmark written is the extraction start time\<close>


subsection \<open>C3: when a bookmark is advanced\<close>

text \<open>
  C3 as stated fails for the \<^verbatim>\<open>issues\<close> stream: \<^verbatim>\<open>sync_issues\<close> writes the
  \<^verbatim>\<open>issues\<close>/\<^verbatim>\<open>start\<close> bookmark between its two phases, so issue records taken from the
  activity are emitted after it, and a failure of the activity phase leaves it advanced.

  C3, amended: the \<^verbatim>\<open>events\<close>/\<^verbatim>\<open>start\<close> bookmark (\<^verbatim>\<open>sync_events\<close>) and the
  \<^verbatim>\<open>activity\<close>/\<^verbatim>\<open>start\<close> bookmark (\<^verbatim>\<open>sync_issues\<close>) are written only by the last action of a
  successful invocation, after every record, and a failed invocation leaves them
  unchanged. The \<^verbatim>\<open>issues\<close>/\<^verbatim>\<open>start\<close> bookmark is written by \<^verbatim>\<open>sync_issues\<close> once the
  per-project fetches have all succeeded and their records are emitted, before the issue
  records taken from the activity; a failure in the per-project phase leaves the whole
  state unchanged, and a failed invocation leaves the state either unchanged or changed
  in that one bookmark. \<^verbatim>\<open>sync_teams\<close>, \<^verbatim>\<open>sync_users\<close> and \<^verbatim>\<open>sync_projects\<close> never change the
  state.
\<close>

theorem bookmark_written_after_records:
  "(sync_events env ps schema w = Some (Inl e, w') \<longrightarrow> state w' = state w)
   \<and> (sync_events env ps schema w = Some (Inr u, w') \<longrightarrow>
        (\<exists>recs. out w' = out w @ SCHEMA ''events'' schema [''eventID'']
                    # map (RECORD ''events'') recs
                    @ (if truthy ps then [STATE (state w')] else [])))
   \<and> (sync_issues env ps schema w = Some (Inl e, w') \<longrightarrow>
        get_bookmark (state w') ''activity'' ''start'' = get_bookmark (state w) ''activity'' ''start''
        \<and> (state w' = state w
            \<or> state w' = write_bookmark (state w) ''issues'' ''start'' (strftime env (clock w))))
   \<and> (sync_issues env ps schema w = Some (Inr u, w') \<longrightarrow>
        (\<exists>recs new.
           out w' = out w @ SCHEMA ''issues'' schema [''id''] # map (RECORD ''issues'') recs
                      @ STATE (write_bookmark (state w) ''issues'' ''start'' (strftime env (clock w)))
                      # map (RECORD ''issues'') new @ [STATE (state w')]
           \<and> state w' = write_bookmark
                           (write_bookmark (state w) ''issues'' ''start'' (strftime env (clock w)))
                           ''activity'' ''start'' (strftime env (clock w))))
   \<and> (sync_issues_projects env ps (write_schema ''issues'' schema [''id''] w) = Some (Inl e, w') \<longrightarrow>
        sync_issues env ps schema w = Some (Inl e, w') \<and> state w' = state w)
   \<and> (sync_teams env schema w = Some (x, w') \<longrightarrow> state w' = state w)
   \<and> state (snd (sync_users env schema w)) = state w
   \<and> state (snd (sync_projects ps schema w)) = state w"
proof (intro conjI impI)
  assume "sync_events env ps schema w = Some (Inl e, w')"
  then show "state w' = state w" by (rule sync_events_failure)
next
  assume "sync_events env ps schema w = Some (Inr u, w')"
  then show "\<exists>recs. out w' = out w @ SCHEMA ''events'' schema [''eventID'']
                    # map (RECORD ''events'') recs
                    @ (if truthy ps then [STATE (state w')] else [])"
    by (rule sync_events_out)
next
  assume a: "sync_issues env ps schema w = Some (Inl e, w')"
  from sync_issues_failure [OF a]
  show "get_bookmark (state w') ''activity'' ''start'' = get_bookmark (state w) ''activity'' ''start''"
    by (auto simp: get_write_bookmark)
  from sync_issues_failure [OF a]
  show "state w' = state w
            \<or> state w' = write_bookmark (state w) ''issues'' ''start'' (strftime env (clock w))" .
next
  assume "sync_issues env ps schema w = Some (Inr u, w')"
  from sync_issues_success [OF this]
  show "\<exists>recs new.
           out w' = out w @ SCHEMA ''issues'' schema [''id''] # map (RECORD ''issues'') recs
                      @ STATE (write_bookmark (state w) ''issues'' ''start'' (strftime env (clock w)))
                      # map (RECORD ''issues'') new @ [STATE (state w')]
           \<and> state w' = write_bookmark
                           (write_bookmark (state w) ''issues'' ''start'' (strftime env (clock w)))
                           ''activity'' ''start'' (strftime env (clock w))"
    by blast
next
  assume a: "sync_issues_projects env ps (write_schema ''issues'' schema [''id''] w) = Some (Inl e, w')"
  then show "sync_issues env ps schema w = Some (Inl e, w')"
    by (simp add: sync_issues_def Let_def)
  from sync_issues_projects_out [OF a] show "state w' = state w" by simp
next
  assume "sync_teams env schema w = Some (x, w')"
  then show "state w' = state w" by (rule sync_teams_state)
next
  show "state (snd (sync_users env schema w)) = state w" by (rule sync_users_state)
  show "state (snd (sync_projects ps schema w)) = state w" by (rule sync_projects_state)
qed

text \<open>
  A failing and a successful run of \<^verbatim>\<open>sync_events\<close>, a first run of \<^verbatim>\<open>sync_issues\<close> that
  fails in the activity phase, a successful one, one that fails in the per-project
  phase, and a run of \<^verbatim>\<open>sync_teams\<close>.
\<close>

theorem bookmark_written_after_records_witness:
  "state \<lparr>clock = 7, requests = [], state = [], out = [SCHEMA ''events'' JNull [''eventID'']]\<rparr>
     = state (start_world [])
   \<and> (\<exists>recs. [SCHEMA ''events'' JNull [''eventID''], RECORD ''events'' (event ''e1''),
               RECORD ''events'' (event ''e3''), STATE [((''events'', ''start''), ''tIIIIIII'')]]
             = SCHEMA ''events'' JNull [''eventID''] # map (RECORD ''events'') recs
                 @ [STATE [((''events'', ''start''), ''tIIIIIII'')]])
   \<and> get_bookmark [((''issues'', ''start''), ''tIIIIIII'')] ''activity'' ''start'' = None
   \<and> (\<exists>recs new.
         [SCHEMA ''issues'' JNull [''id''],
          RECORD ''issues'' (issue ''1''),
          STATE [((''activity'', ''start''), ''tII''), ((''issues'', ''start''), ''tIIIIIII'')],
          RECORD ''issues'' (issue ''2''),
          STATE [((''activity'', ''start''), ''tIIIIIII''), ((''issues'', ''start''), ''tIIIIIII'')]]
         = SCHEMA ''issues'' JNull [''id''] # map (RECORD ''issues'') recs
             @ STATE [((''activity'', ''start''), ''tII''), ((''issues'', ''start''), ''tIIIIIII'')]
             # map (RECORD ''issues'') new
             @ [STATE [((''activity'', ''start''), ''tIIIIIII''), ((''issues'', ''start''), ''tIIIIIII'')]])
   \<and> sync_issues (test_env events_server) (JArr [project ''1'' ''a'']) JNull (start_world [])
       = Some (Inl RequestException,
           \<lparr>clock = 8, requests = [''h/projects/rise-people/a/issues/''], state = [],
            out = [SCHEMA ''issues'' JNull [''id'']]\<rparr>)
   \<and> state \<lparr>clock = 9, requests = [''h/organizations/rise-people/teams/'', ''p2''], state = [],
             out = [SCHEMA ''teams'' JNull [''id''], RECORD ''teams'' (team ''1''),
                    RECORD ''teams'' (JStr ''detail'')]\<rparr>
       = state (start_world [])"
proof -
  note t = bookmark_written_after_records
  have 1: "state \<lparr>clock = 7, requests = [], state = [], out = [SCHEMA ''events'' JNull [''eventID'']]\<rparr>
     = state (start_world [])"
    using t [THEN conjunct1, THEN mp, OF run_events_malformed_project] .
  have 2: "\<exists>recs. [SCHEMA ''events'' JNull [''eventID''], RECORD ''events'' (event ''e1''),
               RECORD ''events'' (event ''e3''), STATE [((''events'', ''start''), ''tIIIIIII'')]]
             = SCHEMA ''events'' JNull [''eventID''] # map (RECORD ''events'') recs
                 @ [STATE [((''events'', ''start''), ''tIIIIIII'')]]"
    using t [THEN conjunct2, THEN conjunct1, THEN mp, OF run_events_ok]
    by (simp add: start_world_def)
  have 3: "get_bookmark [((''issues'', ''start''), ''tIIIIIII'')] ''activity'' ''start'' = None"
    using t [THEN conjunct2, THEN conjunct2, THEN conjunct1, THEN mp, OF run_issues_first,
             THEN conjunct1]
    by (simp add: start_world_def get_bookmark_def)
  have 4: "\<exists>recs new.
         [SCHEMA ''issues'' JNull [''id''],
          RECORD ''issues'' (issue ''1''),
          STATE [((''activity'', ''start''), ''tII''), ((''issues'', ''start''), ''tIIIIIII'')],
          RECORD ''issues'' (issue ''2''),
          STATE [((''activity'', ''start''), ''tIIIIIII''), ((''issues'', ''start''), ''tIIIIIII'')]]
         = SCHEMA ''issues'' JNull [''id''] # map (RECORD ''issues'') recs
             @ STATE [((''activity'', ''start''), ''tII''), ((''issues'', ''start''), ''tIIIIIII'')]
             # map (RECORD ''issues'') new
             @ [STATE [((''activity'', ''start''), ''tIIIIIII''), ((''issues'', ''start''), ''tIIIIIII'')]]"
    using t [THEN conjunct2, THEN conjunct2, THEN conjunct2, THEN conjunct1, THEN mp, OF run_issues_ok]
    by (simp add: start_world_def write_bookmark_def test_env_def eval_nat_numeral)
  have 5: "sync_issues (test_env events_server) (JArr [project ''1'' ''a'']) JNull (start_world [])
       = Some (Inl RequestException,
           \<lparr>clock = 8, requests = [''h/projects/rise-people/a/issues/''], state = [],
            out = [SCHEMA ''issues'' JNull [''id'']]\<rparr>)"
    using t [THEN conjunct2, THEN conjunct2, THEN conjunct2, THEN conjunct2, THEN conjunct1,
             THEN mp, OF run_issues_phase_unreachable]
    by simp
  have 6: "state \<lparr>clock = 9, requests = [''h/organizations/rise-people/teams/'', ''p2''], state = [],
             out = [SCHEMA ''teams'' JNull [''id''], RECORD ''teams'' (team ''1''),
                    RECORD ''teams'' (JStr ''detail'')]\<rparr>
       = state (start_world [])"
    using t [THEN conjunct2, THEN conjunct2, THEN conjunct2, THEN conjunct2, THEN conjunct2,
             THEN conjunct1, THEN mp, OF run_teams_error_page] .
  from 1 2 3 4 5 6 show ?thesis by blast
qed

text \<open>
  Against C3 as stated: the first run fails with the \<^verbatim>\<open>issues\<close>/\<^verbatim>\<open>start\<close> bookmark changed
  from absent to instant 7, and the successful run emits the record of issue 2 after
  the state message that carries that bookmark.
\<close>

theorem bookmark_mid_pass_counterexample:
  "sync_issues (test_env sync_server) (JArr [project ''1'' ''a'']) JNull (start_world [])
     = Some (Inl TypeError,
         \<lparr>clock = 8, requests = [''h/projects/rise-people/a/issues/''],
          state = [((''issues'', ''start''), ''tIIIIIII'')],
          out = [SCHEMA ''issues'' JNull [''id''],
                 RECORD ''issues'' (issue ''1''),
                 STATE [((''issues'', ''start''), ''tIIIIIII'')]]\<rparr>)
   \<and> get_bookmark (state (start_world [])) ''issues'' ''start'' = None
   \<and> get_bookmark [((''issues'', ''start''), ''tIIIIIII'')] ''issues'' ''start'' = Some ''tIIIIIII''
   \<and> sync_issues (test_env sync_server) (JArr [project ''1'' ''a'']) JNull
        (start_world [((''activity'', ''start''), ''tII'')])
     = Some (Inr (),
         \<lparr>clock = 9,
          requests = [''h/projects/rise-people/a/issues/'', ''h/organizations/rise-people/activity/''],
          state = [((''activity'', ''start''), ''tIIIIIII''), ((''issues'', ''start''), ''tIIIIIII'')],
          out = [SCHEMA ''issues'' JNull [''id''],
                 RECORD ''issues'' (issue ''1''),
                 STATE [((''activity'', ''start''), ''tII''), ((''issues'', ''start''), ''tIIIIIII'')],
                 RECORD ''issues'' (issue ''2''),
                 STATE [((''activity'', ''start''), ''tIIIIIII''),
                        ((''issues'', ''start''), ''tIIIIIII'')]]\<rparr>)"
  using run_issues_first run_issues_ok by (simp add: get_bookmark_def start_world_def)

subsection \<open>C4: issue ids already emitted\<close>

text \<open>
  C4 as stated fails when the per-project fetches return an id twice: lines 174 to 176
  append the id and write the record without consulting \<^verbatim>\<open>issues_synced\<close>; only the
  activity branch (line 185) consults it.

  C4, amended: within one invocation of the issues sync, whether it succeeds or fails,
  an issue record taken from an activity is emitted only if no record with its id was
  emitted before in that invocation, so the ids of those records are pairwise distinct
  and distinct from the ids of the per-project records: given an issues fetch returning
  issue X and an activity whose nested issue has the same id, the activity adds no
  record for X. The per-project records are emitted as fetched. When their ids are
  pairwise distinct, every issue id is emitted at most once.
\<close>

theorem activity_issues_deduplicated:
  "sync_issues env ps schema w = Some (x, w') \<longrightarrow>
     (\<exists>recs new.
        (out w' = out w @ SCHEMA ''issues'' schema [''id''] # map (RECORD ''issues'') recs
           \<and> new = []
         \<or> out w' = out w @ SCHEMA ''issues'' schema [''id''] # map (RECORD ''issues'') recs
              @ STATE (write_bookmark (state w) ''issues'' ''start'' (strftime env (clock w)))
              # map (RECORD ''issues'') new
              @ (case x of Inl e \<Rightarrow> [] | Inr u \<Rightarrow> [STATE (state w')]))
        \<and> distinct (map issue_id new)
        \<and> set (map issue_id new) \<inter> set (map issue_id recs) = {}
        \<and> (distinct (map issue_id recs) \<longrightarrow> distinct (map issue_id (recs @ new))))"
proof
  assume "sync_issues env ps schema w = Some (x, w')"
  from sync_issues_trace [OF this] obtain recs new where
    o: "out w' = out w @ SCHEMA ''issues'' schema [''id''] # map (RECORD ''issues'') recs
           \<and> new = []
         \<or> out w' = out w @ SCHEMA ''issues'' schema [''id''] # map (RECORD ''issues'') recs
              @ STATE (write_bookmark (state w) ''issues'' ''start'' (strftime env (clock w)))
              # map (RECORD ''issues'') new
              @ (case x of Inl e \<Rightarrow> [] | Inr u \<Rightarrow> [STATE (state w')])" and
    d: "distinct (map issue_id new)" and
    dj: "set (map issue_id new) \<inter> set (map issue_id recs) = {}"
    by blast
  from d dj have "distinct (map issue_id recs) \<longrightarrow> distinct (map issue_id (recs @ new))"
    by auto
  with o d dj show "\<exists>recs new.
        (out w' = out w @ SCHEMA ''issues'' schema [''id''] # map (RECORD ''issues'') recs
           \<and> new = []
         \<or> out w' = out w @ SCHEMA ''issues'' schema [''id''] # map (RECORD ''issues'') recs
              @ STATE (write_bookmark (state w) ''issues'' ''start'' (strftime env (clock w)))
              # map (RECORD ''issues'') new
              @ (case x of Inl e \<Rightarrow> [] | Inr u \<Rightarrow> [STATE (state w')]))
        \<and> distinct (map issue_id new)
        \<and> set (map issue_id new) \<inter> set (map issue_id recs) = {}
        \<and> (distinct (map issue_id recs) \<longrightarrow> distinct (map issue_id (recs @ new)))"
    by blast
qed

text \<open>
  \<open>run_issues_ok\<close>: issue 1 comes from the project, the activity refers to the issues 1
  and 2, and one record is written for each id.
\<close>

theorem activity_issues_deduplicated_witness:
  "\<exists>recs new.
      ([SCHEMA ''issues'' JNull [''id''],
        RECORD ''issues'' (issue ''1''),
        STATE [((''activity'', ''start''), ''tII''), ((''issues'', ''start''), ''tIIIIIII'')],
        RECORD ''issues'' (issue ''2''),
        STATE [((''activity'', ''start''), ''tIIIIIII''), ((''issues'', ''start''), ''tIIIIIII'')]]
       = SCHEMA ''issues'' JNull [''id''] # map (RECORD ''issues'') recs \<and> new = []
       \<or>
       [SCHEMA ''issues'' JNull [''id''],
        RECORD ''issues'' (issue ''1''),
        STATE [((''activity'', ''start''), ''tII''), ((''issues'', ''start''), ''tIIIIIII'')],
        RECORD ''issues'' (issue ''2''),
        STATE [((''activity'', ''start''), ''tIIIIIII''), ((''issues'', ''start''), ''tIIIIIII'')]]
       = SCHEMA ''issues'' JNull [''id''] # map (RECORD ''issues'') recs
          @ STATE [((''activity'', ''start''), ''tII''), ((''issues'', ''start''), ''tIIIIIII'')]
          # map (RECORD ''issues'') new
          @ [STATE [((''activity'', ''start''), ''tIIIIIII''), ((''issues'', ''start''), ''tIIIIIII'')]])
      \<and> distinct (map issue_id new)
      \<and> set (map issue_id new) \<inter> set (map issue_id recs) = {}
      \<and> (distinct (map issue_id recs) \<longrightarrow> distinct (map issue_id (recs @ new)))"
  using activity_issues_deduplicated [THEN mp, OF run_issues_ok]
  by (simp add: start_world_def write_bookmark_def test_env_def eval_nat_numeral)

text \<open>Against C4 as stated: the issues endpoint lists issue 1 twice, and it is written twice.\<close>

theorem issue_dedup_counterexample:
  "sync_issues (test_env duplicate_server) (JArr [project ''1'' ''a'']) JNull
     (start_world [((''activity'', ''start''), ''tII'')])
   = Some (Inr (),
       \<lparr>clock = 9,
        requests = [''h/projects/rise-people/a/issues/'', ''h/organizations/rise-people/activity/''],
        state = [((''activity'', ''start''), ''tIIIIIII''), ((''issues'', ''start''), ''tIIIIIII'')],
        out = [SCHEMA ''issues'' JNull [''id''],
               RECORD ''issues'' (issue ''1''),
               RECORD ''issues'' (issue ''1''),
               STATE [((''activity'', ''start''), ''tII''), ((''issues'', ''start''), ''tIIIIIII'')],
               STATE [((''activity'', ''start''), ''tIIIIIII''),
                      ((''issues'', ''start''), ''tIIIIIII'')]]\<rparr>)
   \<and> issue_id (issue ''1'') = JStr ''1''"
  using run_issues_duplicate by (simp add: issue_id_def issue_def)

subsection \<open>C5: a failing events fetch skips the project\<close>

text \<open>
  C5 as stated fails for a malformed response that raises nothing inside \<^verbatim>\<open>events\<close>: a
  payload that decodes to a number is returned by the fetch, and \<^verbatim>\<open>sync_events\<close> raises
  \<^verbatim>\<open>TypeError\<close> when it iterates over it, outside the \<^verbatim>\<open>try\<close>.

  C5, amended: for every project, any exception raised inside that project's events
  fetch (a request error, retries exhausted, an error status of the first request, a
  body that does not decode, missing pagination fields) makes the fetch return
  \<^verbatim>\<open>None\<close> instead of raising; the project is skipped with no record and no state change,
  the events sync continues with the remaining projects exactly as it would without it,
  and when they are processed without error the \<^verbatim>\<open>events\<close>/\<^verbatim>\<open>start\<close> bookmark is advanced
  to the extraction start time after all projects have been attempted.
\<close>

theorem events_fetch_failure_skips_project:
  "(events_body env pid st w = Some (Inl e, w1) \<longrightarrow> events env pid st w = Some (None, w1))
   \<and> (events_per_project env before w0 = Some (Inr u, w) \<and> subscript p ''id'' = Inr pid
        \<and> events_body env pid (state w) w = Some (Inl e, w1) \<longrightarrow>
        events_per_project env (before @ p # rest) w0 = events_per_project env rest w1
        \<and> out w1 = out w \<and> state w1 = state w)
   \<and> (events_per_project env before (write_schema ''events'' schema [''eventID''] ws) = Some (Inr u, w)
        \<and> subscript p ''id'' = Inr pid
        \<and> events_body env pid (state w) w = Some (Inl e, w1)
        \<and> events_per_project env rest w1 = Some (Inr u', w2) \<longrightarrow>
        sync_events env (JArr (before @ p # rest)) schema ws
          = Some (Inr (), set_state (write_bookmark (state w2) ''events'' ''start''
                                       (strftime env (clock ws))) w2)
        \<and> get_bookmark (write_bookmark (state w2) ''events'' ''start'' (strftime env (clock ws)))
             ''events'' ''start'' = Some (strftime env (clock ws)))"
proof (intro conjI impI)
  assume "events_body env pid st w = Some (Inl e, w1)"
  then show "events env pid st w = Some (None, w1)" by (simp add: events_def)
next
  assume a: "events_per_project env before w0 = Some (Inr u, w) \<and> subscript p ''id'' = Inr pid
        \<and> events_body env pid (state w) w = Some (Inl e, w1)"
  then have b: "events_per_project env before w0 = Some (Inr u, w)"
    and i: "subscript p ''id'' = Inr pid"
    and f: "events_body env pid (state w) w = Some (Inl e, w1)"
    by simp_all
  have "events_per_project env (before @ p # rest) w0 = events_per_project env (p # rest) w"
    by (simp only: events_per_project_append b option.case prod.case sum.case)
  also have "\<dots> = events_per_project env rest w1"
    by (rule events_failure_skips [OF i f])
  finally show "events_per_project env (before @ p # rest) w0 = events_per_project env rest w1" .
  from a have "events env pid (state w) w = Some (None, w1)" by (simp add: events_def)
  from events_frame [OF this] show "out w1 = out w" "state w1 = state w" by simp_all
next
  assume a: "events_per_project env before (write_schema ''events'' schema [''eventID''] ws) = Some (Inr u, w)
        \<and> subscript p ''id'' = Inr pid
        \<and> events_body env pid (state w) w = Some (Inl e, w1)
        \<and> events_per_project env rest w1 = Some (Inr u', w2)"
  then have b: "events_per_project env before (write_schema ''events'' schema [''eventID''] ws)
                  = Some (Inr u, w)"
    and i: "subscript p ''id'' = Inr pid"
    and f: "events_body env pid (state w) w = Some (Inl e, w1)"
    and r: "events_per_project env rest w1 = Some (Inr u', w2)"
    by simp_all
  have "events_per_project env (before @ p # rest) (write_schema ''events'' schema [''eventID''] ws)
          = events_per_project env (p # rest) w"
    by (simp only: events_per_project_append b option.case prod.case sum.case)
  also have "\<dots> = events_per_project env rest w1"
    by (rule events_failure_skips [OF i f])
  finally have "events_per_project env (before @ p # rest)
                  (write_schema ''events'' schema [''eventID''] ws) = Some (Inr u', w2)"
    using r by simp
  then show "sync_events env (JArr (before @ p # rest)) schema ws
          = Some (Inr (), set_state (write_bookmark (state w2) ''events'' ''start''
                                       (strftime env (clock ws))) w2)"
    by (simp add: sync_events_def Let_def)
  show "get_bookmark (write_bookmark (state w2) ''events'' ''start'' (strftime env (clock ws)))
             ''events'' ''start'' = Some (strftime env (clock ws))"
    by (simp add: get_write_bookmark)
qed

text \<open>
  \<open>events_server\<close> with three projects: the request for project 2 fails, the records
  of the projects 1 and 3 are written and the bookmark is advanced.
\<close>

theorem events_fetch_failure_skips_project_witness:
  "events (test_env events_server) (JStr ''2'') []
     \<lparr>clock = 8, requests = [''h//organizations/split-software/events/?project=1''], state = [],
      out = [SCHEMA ''events'' JNull [''eventID''], RECORD ''events'' (event ''e1'')]\<rparr>
   = Some (None,
       \<lparr>clock = 9, requests = [''h//organizations/split-software/events/?project=1'',
                                ''h//organizations/split-software/events/?project=2''],
        state = [],
        out = [SCHEMA ''events'' JNull [''eventID''], RECORD ''events'' (event ''e1'')]\<rparr>)
   \<and> events_per_project (test_env events_server)
        [project ''1'' ''a'', project ''2'' ''b'', project ''3'' ''c'']
        \<lparr>clock = 7, requests = [], state = [], out = [SCHEMA ''events'' JNull [''eventID'']]\<rparr>
     = events_per_project (test_env events_server) [project ''3'' ''c'']
        \<lparr>clock = 9, requests = [''h//organizations/split-software/events/?project=1'',
                                 ''h//organizations/split-software/events/?project=2''],
         state = [],
         out = [SCHEMA ''events'' JNull [''eventID''], RECORD ''events'' (event ''e1'')]\<rparr>
   \<and> sync_events (test_env events_server)
        (JArr [project ''1'' ''a'', project ''2'' ''b'', project ''3'' ''c'']) JNull (start_world [])
     = Some (Inr (),
         \<lparr>clock = 10,
          requests = [''h//organizations/split-software/events/?project=1'',
                      ''h//organizations/split-software/events/?project=2'',
                      ''h//organizations/split-software/events/?project=3''],
          state = [((''events'', ''start''), ''tIIIIIII'')],
          out = [SCHEMA ''events'' JNull [''eventID''],
                 RECORD ''events'' (event ''e1''),
                 RECORD ''events'' (event ''e3''),
                 STATE [((''events'', ''start''), ''tIIIIIII'')]]\<rparr>)"
proof -
  let ?env = "test_env events_server"
  let ?u1 = "''h//organizations/split-software/events/?project=1''"
  let ?u2 = "''h//organizations/split-software/events/?project=2''"
  let ?u3 = "''h//organizations/split-software/events/?project=3''"
  let ?wa = "\<lparr>clock = 7, requests = [], state = [], out = [SCHEMA ''events'' JNull [''eventID'']]\<rparr>"
  let ?wb = "\<lparr>clock = 8, requests = [?u1], state = [],
             out = [SCHEMA ''events'' JNull [''eventID''], RECORD ''events'' (event ''e1'')]\<rparr>"
  let ?wc = "\<lparr>clock = 9, requests = [?u1, ?u2], state = [],
              out = [SCHEMA ''events'' JNull [''eventID''], RECORD ''events'' (event ''e1'')]\<rparr>"
  let ?wd = "\<lparr>clock = 10, requests = [?u1, ?u2, ?u3], state = [],
              out = [SCHEMA ''events'' JNull [''eventID''], RECORD ''events'' (event ''e1''),
                     RECORD ''events'' (event ''e3'')]\<rparr>"
  have s: "write_schema ''events'' JNull [''eventID''] (start_world []) = ?wa"
    by (simp add: write_schema_def start_world_def)
  have b: "events_per_project ?env [project ''1'' ''a''] ?wa = Some (Inr (), ?wb)"
    by (simp add: sync_simps client_simps scenario_simps events_server_def eval_nat_numeral)
  have i: "subscript (project ''2'' ''b'') ''id'' = Inr (JStr ''2'')"
    by (simp add: project_def)
  have f: "events_body ?env (JStr ''2'') (state ?wb) ?wb = Some (Inl RequestException, ?wc)"
    by (simp add: sync_simps client_simps scenario_simps events_server_def eval_nat_numeral)
  have f': "events_body ?env (JStr ''2'') [] ?wb = Some (Inl RequestException, ?wc)"
    using f by simp
  have r: "events_per_project ?env [project ''3'' ''c''] ?wc = Some (Inr (), ?wd)"
    by (simp add: sync_simps client_simps scenario_simps events_server_def eval_nat_numeral)
  note t = events_fetch_failure_skips_project
    [where env = ?env and pid = "JStr ''2''" and e = RequestException and ?w1.0 = ?wc
       and w = ?wb and p = "project ''2'' ''b''" and before = "[project ''1'' ''a'']"
       and rest = "[project ''3'' ''c'']" and u = "()" and u' = "()" and ?w2.0 = ?wd]
  have 1: "events ?env (JStr ''2'') [] ?wb = Some (None, ?wc)"
    using t [where st = "[]", THEN conjunct1, THEN mp, OF f'] .
  have 2: "events_per_project ?env ([project ''1'' ''a''] @ project ''2'' ''b'' # [project ''3'' ''c'']) ?wa
             = events_per_project ?env [project ''3'' ''c''] ?wc"
    using t [where ?w0.0 = ?wa, THEN conjunct2, THEN conjunct1, THEN mp, OF conjI [OF b conjI [OF i f]]]
    by simp
  have 3: "sync_events ?env (JArr ([project ''1'' ''a''] @ project ''2'' ''b'' # [project ''3'' ''c'']))
             JNull (start_world [])
           = Some (Inr (), set_state (write_bookmark (state ?wd) ''events'' ''start''
                                        (strftime ?env (clock (start_world [])))) ?wd)"
    using t [where ws = "start_world []" and schema = JNull, THEN conjunct2, THEN conjunct2, THEN mp,
             OF conjI [OF b [folded s] conjI [OF i conjI [OF f r]]]]
    by simp
  from 1 2 3 show ?thesis
    by (simp add: set_state_def write_bookmark_def test_env_def start_world_def eval_nat_numeral)
qed

text \<open>
  Against C5 as stated: the events endpoint answers with the number 5; the fetch returns
  it, and the sync ends in \<^verbatim>\<open>TypeError\<close> without a bookmark.
\<close>

theorem events_malformed_payload_counterexample:
  "events (test_env number_events_server) (JStr ''1'') [] (start_world [])
   = Some (Some (JNum 5),
       \<lparr>clock = 8, requests = [''h//organizations/split-software/events/?project=1''],
        state = [], out = []\<rparr>)
   \<and> sync_events (test_env number_events_server) (JArr [project ''1'' ''a'']) JNull (start_world [])
   = Some (Inl TypeError,
       \<lparr>clock = 8, requests = [''h//organizations/split-software/events/?project=1''],
        state = [], out = [SCHEMA ''events'' JNull [''eventID'']]\<rparr>)"
  using run_fetch_number run_events_number by simp

subsection \<open>C6: fetch failures on a follow-up page\<close>

text \<open>
  C6 says a fetch failure propagates to the sync caller. The first request of every
  fetch goes through \<^verbatim>\<open>_get\<close>, which calls \<^verbatim>\<open>raise_for_status\<close>; the follow-up requests of
  the pagination loops call \<^verbatim>\<open>session.get\<close> directly and check nothing. When the second
  page of teams is a 404 that carries the error object of the API, \<^verbatim>\<open>sync_teams\<close>
  succeeds and writes the key of that object as a team record, although
  \<^verbatim>\<open>raise_for_status\<close> raises on that response.
\<close>

theorem teams_error_page_not_raised:
  "sync_teams (test_env teams_error_server) JNull (start_world [])
   = Some (Inr (),
       \<lparr>clock = 9, requests = [''h/organizations/rise-people/teams/'', ''p2''], state = [],
        out = [SCHEMA ''teams'' JNull [''id''],
               RECORD ''teams'' (team ''1''),
               RECORD ''teams'' (JStr ''detail'')]\<rparr>)
   \<and> teams_error_server ''p2'' = Inr (page 404 (JObj [(''detail'', JStr ''Not found'')]) [])
   \<and> raise_for_status (page 404 (JObj [(''detail'', JStr ''Not found'')]) [])
       = Inl (HTTPError 404)"
  using run_teams_error_page
  by (simp add: teams_error_server_def raise_for_status_def page_def)

end
